theory Spec2Isabelle
  imports Main "HOL-Library.AList" "HOL-Library.Sublist"
begin

section \<open>Python values\<close>

text \<open>
  A Python \<open>str\<close> is a sequence of Unicode code points; it is modelled as a list of
  natural numbers, and a literal of the source is written \<open>str ''...''\<close>.
\<close>

type_synonym pystr = "nat list"

abbreviation (input) str :: "string \<Rightarrow> pystr" where
  "str s \<equiv> map of_char s"

abbreviation (input) chr :: "char \<Rightarrow> nat" where
  "chr c \<equiv> of_char c"

text \<open>
  What \<open>json.loads\<close> returns. A \<open>dict\<close> keeps its keys in insertion order, so it is an
  association list; a \<open>float\<close> is kept as the text of its literal.
\<close>

datatype json =
    JNull
  | JBool bool
  | JInt int
  | JFloat pystr
  | JStr pystr
  | JArr "json list"
  | JObj "(pystr \<times> json) list"

type_synonym pydict = "(pystr \<times> json) list"

text \<open>
  A \<open>pandas.DataFrame\<close> built from a list of dicts: the column names, and one list of
  cells per row. A cell holds the value that the row's dict has under the column's key,
  \<open>None\<close> where it has none (pandas puts NaN there). The dtype that pandas gives a column,
  and what it makes of the values to store them under that dtype, are not part of the
  model: no line of the program reads a cell.
\<close>

record dataframe =
  columns :: "pystr list"
  rows :: "json option list list"

text \<open>
  The exceptions the program meets. \<open>KeyboardInterrupt\<close> and \<open>SystemExit\<close> derive from
  \<open>BaseException\<close> only; every other class derives from \<open>Exception\<close>.
  \<open>JSONDecodeError\<close> is a subclass of \<open>ValueError\<close>, so a handler for it lets a plain
  \<open>ValueError\<close> through; \<open>OtherException\<close> stands for any further subclass of \<open>Exception\<close>
  (a driver's \<open>OperationalError\<close>, \<open>FileNotFoundError\<close>, \<open>UnicodeEncodeError\<close>, ...), with its
  message.
\<close>

datatype exn =
    KeyError pystr
  | TypeError
  | ValueError pystr
  | JSONDecodeError
  | RecursionError
  | RequestException pystr
  | OtherException pystr
  | KeyboardInterrupt
  | SystemExit

fun is_Exception :: "exn \<Rightarrow> bool" where
  "is_Exception KeyboardInterrupt = False"
| "is_Exception SystemExit = False"
| "is_Exception _ = True"

fun is_RequestException :: "exn \<Rightarrow> bool" where
  "is_RequestException (RequestException _) = True"
| "is_RequestException _ = False"

fun is_KeyError :: "exn \<Rightarrow> bool" where
  "is_KeyError (KeyError _) = True"
| "is_KeyError _ = False"

fun is_JSONDecodeError :: "exn \<Rightarrow> bool" where
  "is_JSONDecodeError JSONDecodeError = True"
| "is_JSONDecodeError _ = False"

text \<open>
  What a query or the CSV reader gives for a cell, and so what the resolver returns for an
  airport code: a \<open>str\<close>, or an object of another type (\<open>None\<close> for a NULL of the database,
  the float NaN for an empty field of the CSV file, a number), of which the model keeps
  the text that an f-string makes of it. An object that is not a \<open>str\<close> is equal to no
  \<open>str\<close>.
\<close>

datatype cell = Str pystr | Other pystr

fun format_cell :: "cell \<Rightarrow> pystr" where
  "format_cell (Str s) = s"
| "format_cell (Other s) = s"

section \<open>Effects\<close>

text \<open>
  Every call of the source that reaches outside the process (the log, the database, the
  file system) appends one event to a trace. A log event keeps the level and the values
  the source interpolates into the message, one constructor of \<open>msg\<close> per logging call.
\<close>

datatype level = DEBUG | INFO | WARNING | ERROR

datatype msg =
    ScrapingFor int int int
  | AirportCodes "cell list"
  | NoFlightData
  | SavingTo pystr
  | SampleResults dataframe
  | Done
  | FetchingCodeList pystr pystr
  | DatabaseFetchFailed exn
  | FetchingData cell int pystr
  | FetchFailed cell int exn
  | ResponseSnippet pystr
  | NoJsonData cell int pystr
  | JsonDecodeFailed cell int exn
  | FlightsFound nat cell int
  | KeyMissing cell int exn

text \<open>
  \<open>ToCsv path df index encoding\<close> is the call \<open>df.to_csv(path, index=index, encoding=encoding)\<close>,
  \<open>CreateDir path\<close> the call \<open>create_dir(path, to_clear=False)\<close>; whether the call returns or
  raises is for the environment to say.
\<close>

datatype event =
    Log level msg
  | Print exn
  | DbConnect pystr
  | DbExecute pystr "(pystr \<times> pystr) list"
  | DbClose
  | ReadCsv pystr
  | HttpGet pystr
  | CreateDir pystr
  | ToCsv pystr dataframe bool pystr

type_synonym 'a result = "(exn + 'a) \<times> event list"

text \<open>A row of a query result; \<open>row[0]\<close> is its first component.\<close>

type_synonym row = "cell \<times> cell list"

text \<open>
  What \<open>pandas.read_csv\<close> has parsed: the column names in file order and the rows.
\<close>

record csv_table =
  csv_columns :: "pystr list"
  csv_rows :: "cell list list"

text \<open>
  The collaborators of the program: the configuration constants read at import time, the
  database server, the file system, the web site and the clock.  \<open>db_connect url\<close> is \<open>None\<close> when
  \<open>create_engine(url).connect()\<close> returns a connection and \<open>Some e\<close> when it raises \<open>e\<close>;
  \<open>db_execute sql params\<close> is the outcome of \<open>conn.execute(text(sql), params).fetchall()\<close>;
  \<open>http_get url\<close> is the outcome of \<open>requests.get\<close> followed by \<open>raise_for_status\<close>, the
  text of the response when neither raises; \<open>tomorrow\<close> is the year, month and day of
  \<open>date.today() + timedelta(days=1)\<close>.  \<open>create_dir path\<close> is what
  \<open>util.tools.create_dir(path, to_clear=False)\<close> raises, the module being no part of the
  sources at hand, and \<open>to_csv path df\<close> what \<open>df.to_csv(path, index=False, encoding='utf-8')\<close>
  raises (a directory that is not there, a string that UTF-8 cannot encode), \<open>None\<close> when
  the call returns.

  The interpreter sets three limits. \<open>int_max_str_digits\<close> is \<open>sys.get_int_max_str_digits()\<close>,
  4300 unless configured, and 0 where there is no limit. \<open>decoder_depth\<close> is how many
  containers, one inside the other, the recursion limit lets the scanner of \<open>json.loads\<close>
  enter from where line 142 calls it, and \<open>normalize_depth\<close> how many calls of
  \<open>_normalise_json\<close>, one inside the other, it allows from where line 77 calls
  \<open>pd.json_normalize\<close>.
\<close>

record env =
  PG_URL :: pystr
  BASE_WEBSITE :: pystr
  DBT_DATA_DIR :: pystr
  OUTPUT_DIR :: pystr
  INPUT_FILE_NAME :: pystr
  OUTPUT_FILE_NAME :: pystr
  db_connect :: "pystr \<Rightarrow> exn option"
  db_execute :: "pystr \<Rightarrow> (pystr \<times> pystr) list \<Rightarrow> exn + row list"
  read_csv :: "pystr \<Rightarrow> exn + csv_table"
  http_get :: "pystr \<Rightarrow> exn + pystr"
  tomorrow :: "int \<times> int \<times> int"
  create_dir :: "pystr \<Rightarrow> exn option"
  to_csv :: "pystr \<Rightarrow> dataframe \<Rightarrow> exn option"
  int_max_str_digits :: nat
  decoder_depth :: nat
  normalize_depth :: nat

section \<open>util/database.py\<close>

text \<open>
  \<open>__init__\<close> refuses an empty URL; an exception of \<open>create_engine\<close> or \<open>connect\<close> is
  printed, when it derives from \<open>Exception\<close>, and raised again.
\<close>

record DatabaseConnection =
  pg_engine :: pystr

definition DatabaseConnection_init :: "env \<Rightarrow> pystr \<Rightarrow> DatabaseConnection result" where
  "DatabaseConnection_init E url =
     (if url = [] then (Inl (ValueError (str ''Database URL is required for connection'')), [])
      else case db_connect E url of
             Some e \<Rightarrow> (Inl e, if is_Exception e then [Print e] else [])
           | None \<Rightarrow> (Inr \<lparr>pg_engine = url\<rparr>, [DbConnect url]))"

text \<open>
  \<open>__exit__\<close> closes the connection and has no \<open>return\<close>: it returns \<open>None\<close>, so the \<open>with\<close>
  statement re-raises the exception of its body. Its model is the trace it leaves.
\<close>

definition DatabaseConnection_exit :: "DatabaseConnection \<Rightarrow> event list" where
  "DatabaseConnection_exit self = [DbClose]"

text \<open>Whether a connection is open after a trace.\<close>

fun connection_open :: "bool \<Rightarrow> event list \<Rightarrow> bool" where
  "connection_open b [] = b"
| "connection_open b (DbConnect _ # t) = connection_open True t"
| "connection_open b (DbClose # t) = connection_open False t"
| "connection_open b (_ # t) = connection_open b t"

section \<open>arrivals.py: the airport code resolver\<close>

definition select_sql :: "pystr \<Rightarrow> pystr" where
  "select_sql iata_or_icao =
     str ''SELECT '' @ iata_or_icao @ str '' FROM public.stg_airports WHERE country = :country''"

definition get_airport_code_list_db :: "env \<Rightarrow> pystr \<Rightarrow> pystr \<Rightarrow> cell list result" where
  "get_airport_code_list_db E iata_or_icao country =
     (case DatabaseConnection_init E (PG_URL E) of
        (Inl e, t0) \<Rightarrow> (Inl e, t0)
      | (Inr self, t0) \<Rightarrow>
          (let params = [(str ''country'', country)];
               t1 = [DbExecute (select_sql iata_or_icao) params];
               t2 = DatabaseConnection_exit self
           in case db_execute E (select_sql iata_or_icao) params of
                Inl e \<Rightarrow> (Inl e, t0 @ t1 @ t2)
              | Inr fetched \<Rightarrow> (Inr (map fst fetched), t0 @ t1 @ t2)))"

text \<open>\<open>posixpath.join\<close> of two components.\<close>

definition path_join :: "pystr \<Rightarrow> pystr \<Rightarrow> pystr" where
  "path_join a b =
     (if b \<noteq> [] \<and> hd b = chr CHR ''/'' then b
      else if a = [] \<or> last a = chr CHR ''/'' then a @ b
      else a @ [chr CHR ''/''] @ b)"

text \<open>
  The CSV path. \<open>index_col\<close> takes the column \<open>Airport_ID\<close> out of the columns (a
  \<open>ValueError\<close> when the file has none), \<open>replace\<close> deletes every double quote of every
  cell that is a \<open>str\<close>, and a column that is not there is a \<open>KeyError\<close>. The table is one
  whose column names are distinct; a field that a row does not have is NaN. The
  comparison with \<open>country\<close> selects the rows whose cell is that \<open>str\<close>, and \<open>tolist\<close> gives
  the cells of the selected rows as they are, a NaN included.
\<close>

definition column_index :: "pystr list \<Rightarrow> pystr \<Rightarrow> nat option" where
  "column_index cols c = (if c \<in> set cols then Some (length (takeWhile (\<lambda>x. x \<noteq> c) cols)) else None)"

definition nan :: cell where
  "nan = Other (str ''nan'')"

definition cell_at :: "cell list \<Rightarrow> nat \<Rightarrow> cell" where
  "cell_at r i = (if i < length r then r ! i else nan)"

fun replace_quotes :: "cell \<Rightarrow> cell" where
  "replace_quotes (Str s) = Str (filter (\<lambda>c. c \<noteq> chr CHR 0x22) s)"
| "replace_quotes (Other s) = Other s"

definition get_airport_code_list_csv :: "env \<Rightarrow> pystr \<Rightarrow> pystr \<Rightarrow> cell list result" where
  "get_airport_code_list_csv E iata_or_icao country =
     (let file = path_join (OUTPUT_DIR E) (INPUT_FILE_NAME E); t = [ReadCsv file] in
      case read_csv E file of
        Inl e \<Rightarrow> (Inl e, t)
      | Inr tab \<Rightarrow>
          (case column_index (csv_columns tab) (str ''Airport_ID'') of
             None \<Rightarrow> (Inl (ValueError (str ''Index Airport_ID invalid'')), t)
           | Some ix \<Rightarrow>
               (let cols = filter (\<lambda>c. c \<noteq> str ''Airport_ID'') (csv_columns tab);
                    body = map (\<lambda>r. map replace_quotes (take ix r @ drop (Suc ix) r)) (csv_rows tab)
                in case column_index cols (str ''Country'') of
                     None \<Rightarrow> (Inl (KeyError (str ''Country'')), t)
                   | Some ci \<Rightarrow>
                       (case column_index cols iata_or_icao of
                          None \<Rightarrow> (Inl (KeyError iata_or_icao), t)
                        | Some ki \<Rightarrow>
                            (Inr (map (\<lambda>r. cell_at r ki) (filter (\<lambda>r. cell_at r ci = Str country) body)),
                             t)))))"

definition get_airport_code_list :: "env \<Rightarrow> pystr \<Rightarrow> pystr \<Rightarrow> cell list result" where
  "get_airport_code_list E iata_or_icao country =
     (let t0 = [Log INFO (FetchingCodeList iata_or_icao country)] in
      case get_airport_code_list_db E iata_or_icao country of
        (Inr codes, t1) \<Rightarrow> (Inr codes, t0 @ t1)
      | (Inl e, t1) \<Rightarrow>
          if is_Exception e then
            (case get_airport_code_list_csv E iata_or_icao country of
               (r, t2) \<Rightarrow> (r, t0 @ t1 @ [Log WARNING (DatabaseFetchFailed e)] @ t2))
          else (Inl e, t0 @ t1))"

fun is_ReadCsv :: "event \<Rightarrow> bool" where
  "is_ReadCsv (ReadCsv _) = True"
| "is_ReadCsv _ = False"

section \<open>The standard library: \<open>re\<close> and \<open>json\<close>\<close>

subsection \<open>The pattern of the extractor\<close>

text \<open>
  \<open>re.search(r'__NEXT_DATA__\s*=\s*(\{.*?\})\s*[;<]', text, re.DOTALL)\<close>, compiled by hand.
  \<open>\s\<close> on a \<open>str\<close> pattern is every code point for which \<open>str.isspace\<close> holds.
\<close>

definition is_space :: "nat \<Rightarrow> bool" where
  "is_space c =
     (9 \<le> c \<and> c \<le> 13 \<or> 28 \<le> c \<and> c \<le> 32 \<or> c = 133 \<or> c = 160 \<or> c = 5760
      \<or> 8192 \<le> c \<and> c \<le> 8202 \<or> c = 8232 \<or> c = 8233 \<or> c = 8239 \<or> c = 8287 \<or> c = 12288)"

definition marker :: pystr where
  "marker = str ''__NEXT_DATA__''"

text \<open>
  \<open>\s*[;<]\<close>: the greedy run of white space gives nothing back that could match, since
  neither terminator is white space.
\<close>

definition terminated :: "pystr \<Rightarrow> bool" where
  "terminated s =
     (case dropWhile is_space s of [] \<Rightarrow> False | d # _ \<Rightarrow> d = chr CHR '';'' \<or> d = chr CHR ''<'')"

text \<open>
  \<open>.*?\}\s*[;<]\<close>: with \<open>DOTALL\<close> the dot takes any character; the lazy star stops at the
  first closing brace that the terminator follows. The result is the text of \<open>.*?\}\<close>.
\<close>

fun lazy_body :: "pystr \<Rightarrow> pystr option" where
  "lazy_body [] = None"
| "lazy_body (c # cs) =
     (if c = chr CHR ''}'' \<and> terminated cs then Some [c]
      else map_option ((#) c) (lazy_body cs))"

text \<open>The pattern anchored at the head of \<open>s\<close>; the result is \<open>group(1)\<close>.\<close>

definition match_here :: "pystr \<Rightarrow> pystr option" where
  "match_here s =
     (if prefix marker s then
        (case dropWhile is_space (drop (length marker) s) of
           [] \<Rightarrow> None
         | e # s1 \<Rightarrow>
             if e \<noteq> chr CHR ''='' then None
             else (case dropWhile is_space s1 of
                     [] \<Rightarrow> None
                   | b # s2 \<Rightarrow>
                       if b \<noteq> chr CHR ''{'' then None
                       else map_option ((#) b) (lazy_body s2)))
      else None)"

text \<open>\<open>re.search\<close> takes the leftmost position at which the pattern matches.\<close>

fun re_search :: "pystr \<Rightarrow> pystr option" where
  "re_search [] = match_here []"
| "re_search (c # cs) =
     (case match_here (c # cs) of Some g \<Rightarrow> Some g | None \<Rightarrow> re_search cs)"

subsection \<open>\<open>json.loads\<close>\<close>

text \<open>
  The decoder of the \<open>json\<close> module in its default configuration: \<open>NaN\<close>, \<open>Infinity\<close> and
  \<open>-Infinity\<close> are accepted, control characters inside a string are not, a repeated key
  keeps its first place and its last value. A parser returns the value with the rest of
  the text, or the exception that the module raises there: \<open>JSONDecodeError\<close> where the
  text is no JSON, \<open>ValueError\<close> at an integer literal with more digits than the
  interpreter converts, \<open>RecursionError\<close> at a container nested deeper than the recursion
  limit allows.
\<close>

definition is_ws :: "nat \<Rightarrow> bool" where
  "is_ws c = (c = 32 \<or> c = 9 \<or> c = 10 \<or> c = 13)"

definition skip_ws :: "pystr \<Rightarrow> pystr" where
  "skip_ws s = dropWhile is_ws s"

definition is_digit :: "nat \<Rightarrow> bool" where
  "is_digit c = (48 \<le> c \<and> c \<le> 57)"

definition hex_digit :: "nat \<Rightarrow> nat option" where
  "hex_digit c =
     (if 48 \<le> c \<and> c \<le> 57 then Some (c - 48)
      else if 97 \<le> c \<and> c \<le> 102 then Some (c - 87)
      else if 65 \<le> c \<and> c \<le> 70 then Some (c - 55)
      else None)"

definition hex4 :: "nat \<Rightarrow> nat \<Rightarrow> nat \<Rightarrow> nat \<Rightarrow> nat option" where
  "hex4 a b c d =
     (case (hex_digit a, hex_digit b, hex_digit c, hex_digit d) of
        (Some x, Some y, Some z, Some w) \<Rightarrow> Some (((x * 16 + y) * 16 + z) * 16 + w)
      | _ \<Rightarrow> None)"

definition unescape :: "nat \<Rightarrow> nat option" where
  "unescape e =
     (if e = chr CHR 0x22 then Some 34
      else if e = chr CHR 0x5C then Some 92
      else if e = chr CHR ''/'' then Some 47
      else if e = chr CHR ''b'' then Some 8
      else if e = chr CHR ''f'' then Some 12
      else if e = chr CHR ''n'' then Some 10
      else if e = chr CHR ''r'' then Some 13
      else if e = chr CHR ''t'' then Some 9
      else None)"

text \<open>
  The low surrogate that completes the high surrogate \<open>u\<close>, when the text goes on with
  the escape of one (six characters).
\<close>

definition low_surrogate :: "nat \<Rightarrow> pystr \<Rightarrow> nat option" where
  "low_surrogate u s =
     (case s of
        bs # x # a # b # c # d # rest \<Rightarrow>
          if 55296 \<le> u \<and> u \<le> 56319 \<and> bs = chr CHR 0x5C \<and> x = chr CHR ''u'' then
            (case hex4 a b c d of
               Some u2 \<Rightarrow> if 56320 \<le> u2 \<and> u2 \<le> 57343 then Some u2 else None
             | None \<Rightarrow> None)
          else None
      | _ \<Rightarrow> None)"

text \<open>
  The text of a string after its opening quote: the decoded string and what follows,
  \<open>None\<close> where the string is not well formed.
\<close>

function scanstring :: "pystr \<Rightarrow> (pystr \<times> pystr) option" where
  "scanstring [] = None"
| "scanstring (c # cs) =
     (if c = chr CHR 0x22 then Some ([], cs)
      else if c = chr CHR 0x5C then
        (case cs of
           [] \<Rightarrow> None
         | e # cs1 \<Rightarrow>
             if e = chr CHR ''u'' then
               (case cs1 of
                  a # b # c2 # d # rest \<Rightarrow>
                    (case hex4 a b c2 d of
                       None \<Rightarrow> None
                     | Some u \<Rightarrow>
                         (case low_surrogate u rest of
                            Some u2 \<Rightarrow>
                              map_option (apfst ((#) (65536 + ((u - 55296) * 1024 + (u2 - 56320)))))
                                (scanstring (drop 6 rest))
                          | None \<Rightarrow> map_option (apfst ((#) u)) (scanstring rest)))
                | _ \<Rightarrow> None)
             else (case unescape e of
                     None \<Rightarrow> None
                   | Some x \<Rightarrow> map_option (apfst ((#) x)) (scanstring cs1)))
      else if c < 32 then None
      else map_option (apfst ((#) c)) (scanstring cs))"
  by pat_completeness auto
termination
  by (relation "measure length") auto

text \<open>\<open>str\<close> of a natural number.\<close>

fun digits :: "nat \<Rightarrow> pystr" where
  "digits n = (if n < 10 then [48 + n] else digits (n div 10) @ [48 + n mod 10])"

text \<open>
  The conversion of a decimal literal to an \<open>int\<close> refuses more than \<open>limit\<close> digits; it
  looks at the limit only above 640 digits, and a limit of 0 is no limit.
\<close>

definition too_many_digits :: "nat \<Rightarrow> pystr \<Rightarrow> bool" where
  "too_many_digits limit integer = (640 < length integer \<and> 0 < limit \<and> limit < length integer)"

definition digits_error :: "nat \<Rightarrow> pystr \<Rightarrow> exn" where
  "digits_error limit integer =
     ValueError (str ''Exceeds the limit ('' @ digits limit
       @ str '' digits) for integer string conversion: value has '' @ digits (length integer)
       @ str '' digits; use sys.set_int_max_str_digits() to increase the limit'')"

text \<open>
  A number is the longest prefix of the form \<open>-?(0|[1-9][0-9]*)(\.[0-9]+)?([eE][-+]?[0-9]+)?\<close>:
  an \<open>int\<close> when it has neither fraction nor exponent, otherwise a \<open>float\<close>. \<open>None\<close> is
  for a text that does not start with a number.
\<close>

fun value_of_digits :: "nat \<Rightarrow> pystr \<Rightarrow> nat" where
  "value_of_digits acc [] = acc"
| "value_of_digits acc (d # ds) = value_of_digits (acc * 10 + (d - 48)) ds"

definition scan_integer :: "pystr \<Rightarrow> (pystr \<times> pystr) option" where
  "scan_integer s =
     (case s of
        [] \<Rightarrow> None
      | d # ds \<Rightarrow>
          if d = chr CHR ''0'' then Some ([d], ds)
          else if is_digit d then Some (d # takeWhile is_digit ds, dropWhile is_digit ds)
          else None)"

definition scan_fraction :: "pystr \<Rightarrow> pystr \<times> pystr" where
  "scan_fraction s =
     (case s of
        p # d # ds \<Rightarrow>
          if p = chr CHR ''.'' \<and> is_digit d
          then (p # d # takeWhile is_digit ds, dropWhile is_digit ds) else ([], s)
      | _ \<Rightarrow> ([], s))"

definition scan_exponent :: "pystr \<Rightarrow> pystr \<times> pystr" where
  "scan_exponent s =
     (case s of
        [] \<Rightarrow> ([], s)
      | e # s1 \<Rightarrow>
          if e = chr CHR ''e'' \<or> e = chr CHR ''E'' then
            (let sign = (case s1 of
                           [] \<Rightarrow> []
                         | g # _ \<Rightarrow> if g = chr CHR ''-'' \<or> g = chr CHR ''+'' then [g] else []);
                 s2 = drop (length sign) s1
             in if s2 \<noteq> [] \<and> is_digit (hd s2)
                then (e # sign @ takeWhile is_digit s2, dropWhile is_digit s2) else ([], s))
          else ([], s))"

definition scan_number :: "nat \<Rightarrow> pystr \<Rightarrow> (exn + json \<times> pystr) option" where
  "scan_number limit s =
     (let neg = (s \<noteq> [] \<and> hd s = chr CHR ''-'');
          s0 = (if neg then tl s else s)
      in case scan_integer s0 of
           None \<Rightarrow> None
         | Some (integer, s1) \<Rightarrow>
             (case scan_fraction s1 of
                (frac, s2) \<Rightarrow>
                  (case scan_exponent s2 of
                     (exp, s3) \<Rightarrow>
                       if frac = [] \<and> exp = [] then
                         (if too_many_digits limit integer
                          then Some (Inl (digits_error limit integer))
                          else Some (Inr (JInt (if neg then - int (value_of_digits 0 integer)
                                                else int (value_of_digits 0 integer)), s3)))
                       else Some (Inr (JFloat ((if neg then [chr CHR ''-''] else [])
                                               @ integer @ frac @ exp), s3)))))"

text \<open>
  A value that is neither a string nor a container: \<open>null\<close>, \<open>true\<close>, \<open>false\<close>, a
  number, \<open>NaN\<close>, \<open>Infinity\<close>, \<open>-Infinity\<close>, tried in the order of the scanner.
\<close>

definition scan_atom :: "nat \<Rightarrow> pystr \<Rightarrow> exn + json \<times> pystr" where
  "scan_atom limit s =
     (if prefix (str ''null'') s then Inr (JNull, drop 4 s)
      else if prefix (str ''true'') s then Inr (JBool True, drop 4 s)
      else if prefix (str ''false'') s then Inr (JBool False, drop 5 s)
      else case scan_number limit s of
             Some r \<Rightarrow> r
           | None \<Rightarrow>
               if prefix (str ''NaN'') s then Inr (JFloat (str ''NaN''), drop 3 s)
               else if prefix (str ''Infinity'') s then Inr (JFloat (str ''Infinity''), drop 8 s)
               else if prefix (str ''-Infinity'') s then Inr (JFloat (str ''-Infinity''), drop 9 s)
               else Inl JSONDecodeError)"

text \<open>
  The recursive descent over arrays and objects, with the limit on the digits of an
  integer and the number \<open>depth\<close> of containers that may still be entered. \<open>parse_elems\<close>
  reads the elements of an array from the first one on, \<open>parse_members\<close> the members of
  an object from the quote of the first key on. Every value read is at least one
  character long; the comparisons of lengths say so where the recursion goes on with what
  a value left, and they always hold (\<open>parse_elems_unguarded\<close>, \<open>parse_members_unguarded\<close>).
\<close>

function parse_value :: "nat \<Rightarrow> nat \<Rightarrow> pystr \<Rightarrow> exn + json \<times> pystr"
  and parse_elems :: "nat \<Rightarrow> nat \<Rightarrow> pystr \<Rightarrow> json list \<Rightarrow> exn + json list \<times> pystr"
  and parse_members :: "nat \<Rightarrow> nat \<Rightarrow> pystr \<Rightarrow> pydict \<Rightarrow> exn + pydict \<times> pystr" where
  "parse_value limit depth s =
     (case s of
        [] \<Rightarrow> Inl JSONDecodeError
      | c # cs \<Rightarrow>
          if c = chr CHR 0x22 then
            (case scanstring cs of
               None \<Rightarrow> Inl JSONDecodeError
             | Some (x, r) \<Rightarrow> Inr (JStr x, r))
          else if c = chr CHR ''{'' then
            (if depth = 0 then Inl RecursionError
             else case skip_ws cs of
                    [] \<Rightarrow> Inl JSONDecodeError
                  | d # r \<Rightarrow>
                      if d = chr CHR ''}'' then Inr (JObj [], r)
                      else map_sum id (apfst JObj) (parse_members limit (depth - 1) (d # r) []))
          else if c = chr CHR ''['' then
            (if depth = 0 then Inl RecursionError
             else case skip_ws cs of
                    [] \<Rightarrow> Inl JSONDecodeError
                  | d # r \<Rightarrow>
                      if d = chr CHR '']'' then Inr (JArr [], r)
                      else map_sum id (apfst JArr) (parse_elems limit (depth - 1) (d # r) []))
          else scan_atom limit s)"
| "parse_elems limit depth s acc =
     (case parse_value limit depth s of
        Inl e \<Rightarrow> Inl e
      | Inr (v, r) \<Rightarrow>
          (case skip_ws r of
             [] \<Rightarrow> Inl JSONDecodeError
           | d # r1 \<Rightarrow>
               if d = chr CHR '']'' then Inr (acc @ [v], r1)
               else if d = chr CHR '','' \<and> length r1 < length s
               then parse_elems limit depth (skip_ws r1) (acc @ [v])
               else Inl JSONDecodeError))"
| "parse_members limit depth s acc =
     (case s of
        [] \<Rightarrow> Inl JSONDecodeError
      | q # s1 \<Rightarrow>
          if q \<noteq> chr CHR 0x22 then Inl JSONDecodeError
          else (case scanstring s1 of
                  None \<Rightarrow> Inl JSONDecodeError
                | Some (key, r) \<Rightarrow>
                    (case skip_ws r of
                       [] \<Rightarrow> Inl JSONDecodeError
                     | col # r1 \<Rightarrow>
                         if col \<noteq> chr CHR '':'' \<or> length s \<le> length r1 then Inl JSONDecodeError
                         else (case parse_value limit depth (skip_ws r1) of
                                 Inl e \<Rightarrow> Inl e
                               | Inr (v, r2) \<Rightarrow>
                                   (case skip_ws r2 of
                                      [] \<Rightarrow> Inl JSONDecodeError
                                    | d # r3 \<Rightarrow>
                                        if d = chr CHR ''}'' then Inr (AList.update key v acc, r3)
                                        else if d = chr CHR '','' \<and> length r3 < length s
                                        then parse_members limit depth (skip_ws r3) (AList.update key v acc)
                                        else Inl JSONDecodeError)))))"
  by pat_completeness auto
termination
proof (relation "measure (\<lambda>x. case x of
         Inl (limit, depth, s) \<Rightarrow> 2 * length s
       | Inr (Inl (limit, depth, s, acc)) \<Rightarrow> 2 * length s + 1
       | Inr (Inr (limit, depth, s, acc)) \<Rightarrow> 2 * length s + 1)", goal_cases)
  case 1
  show ?case by simp
next
  case (2 limit depth s c cs d r)
  then show ?case
    using length_dropWhile_le [of is_ws cs] by (simp add: skip_ws_def)
next
  case (3 limit depth s c cs d r)
  then show ?case
    using length_dropWhile_le [of is_ws cs] by (simp add: skip_ws_def)
next
  case (4 limit depth s acc)
  show ?case by simp
next
  case (5 limit depth s acc p v r d r1)
  then show ?case
    using length_dropWhile_le [of is_ws r1] by (simp add: skip_ws_def)
next
  case (6 limit depth s acc q s1 p key r col r1)
  then show ?case
    using length_dropWhile_le [of is_ws r1] by (simp add: skip_ws_def)
next
  case (7 limit depth s acc q s1 p key r col r1 p2 v r2 d r3)
  then show ?case
    using length_dropWhile_le [of is_ws r3] by (simp add: skip_ws_def)
qed

text \<open>
  \<open>json.loads\<close>: white space, one value, white space, and nothing more.
\<close>

definition json_loads :: "env \<Rightarrow> pystr \<Rightarrow> exn + json" where
  "json_loads E s =
     (case parse_value (int_max_str_digits E) (decoder_depth E) (skip_ws s) of
        Inl e \<Rightarrow> Inl e
      | Inr (v, r) \<Rightarrow> if skip_ws r = [] then Inr v else Inl JSONDecodeError)"

section \<open>arrivals.py: fetching, extracting and flattening one window\<close>

text \<open>Subscription \<open>d[k]\<close> and item assignment \<open>d[k] = v\<close> with a string key.\<close>

definition getitem :: "json \<Rightarrow> pystr \<Rightarrow> exn + json" where
  "getitem d k =
     (case d of
        JObj kvs \<Rightarrow> (case map_of kvs k of None \<Rightarrow> Inl (KeyError k) | Some v \<Rightarrow> Inr v)
      | _ \<Rightarrow> Inl TypeError)"

definition setitem :: "json \<Rightarrow> pystr \<Rightarrow> json \<Rightarrow> exn + pydict" where
  "setitem d k v = (case d of JObj kvs \<Rightarrow> Inr (AList.update k v kvs) | _ \<Rightarrow> Inl TypeError)"

text \<open>
  What a \<open>for\<close> loop goes through: the elements of a list, the keys of a dict, the
  characters of a string; nothing else can be iterated.
\<close>

definition iter :: "json \<Rightarrow> exn + json list" where
  "iter x =
     (case x of
        JArr xs \<Rightarrow> Inr xs
      | JObj kvs \<Rightarrow> Inr (map (\<lambda>kv. JStr (fst kv)) kvs)
      | JStr s \<Rightarrow> Inr (map (\<lambda>c. JStr [c]) s)
      | _ \<Rightarrow> Inl TypeError)"

definition and_then :: "exn + 'a \<Rightarrow> ('a \<Rightarrow> exn + 'b) \<Rightarrow> exn + 'b" where
  "and_then r f = (case r of Inl e \<Rightarrow> Inl e | Inr x \<Rightarrow> f x)"

text \<open>
  The body of the loop over the flights: the four assignments (lines 153 to 156), and
  before them the lookup of the header (line 152). The right-hand side of an assignment
  is evaluated before the assignment is made; after the first assignment the flight is
  known to be a dict.
\<close>

definition copy_header :: "json \<Rightarrow> json \<Rightarrow> exn + pydict" where
  "copy_header header flight =
     and_then (getitem header (str ''date'')) (\<lambda>date.
     and_then (setitem flight (str ''date'') date) (\<lambda>f1.
     and_then (getitem header (str ''arrivalAirport'')) (\<lambda>a1.
     and_then (getitem a1 (str ''iata'')) (\<lambda>iata.
     (let f2 = AList.update (str ''iata'') iata f1 in
     and_then (getitem header (str ''arrivalAirport'')) (\<lambda>a2.
     and_then (getitem a2 (str ''icao'')) (\<lambda>icao.
     (let f3 = AList.update (str ''icao'') icao f2 in
     and_then (getitem header (str ''arrivalAirport'')) (\<lambda>a3.
     and_then (getitem a3 (str ''name'')) (\<lambda>name.
     Inr (AList.update (str ''airport_name'') name f3)))))))))))"

definition enrich :: "json \<Rightarrow> json \<Rightarrow> exn + pydict" where
  "enrich flight_tracker flight =
     and_then (getitem flight_tracker (str ''route'')) (\<lambda>route.
     and_then (getitem route (str ''header'')) (\<lambda>header.
     copy_header header flight))"

fun enrich_all :: "json \<Rightarrow> json list \<Rightarrow> exn + pydict list" where
  "enrich_all flight_tracker [] = Inr []"
| "enrich_all flight_tracker (flight # rest) =
     and_then (enrich flight_tracker flight) (\<lambda>f.
     and_then (enrich_all flight_tracker rest) (\<lambda>fs. Inr (f # fs)))"

text \<open>The body of the last \<open>try\<close> (lines 148 to 159), without its logging.\<close>

definition flatten :: "json \<Rightarrow> exn + pydict list" where
  "flatten json_data =
     and_then (getitem json_data (str ''props'')) (\<lambda>props.
     and_then (getitem props (str ''initialState'')) (\<lambda>initial_state.
     and_then (getitem initial_state (str ''flightTracker'')) (\<lambda>flight_tracker.
     and_then (getitem flight_tracker (str ''route'')) (\<lambda>route.
     and_then (getitem route (str ''flights'')) (\<lambda>flights.
     and_then (iter flights) (\<lambda>items.
     enrich_all flight_tracker items))))))"

text \<open>\<open>str\<close> of an \<open>int\<close>, as an f-string formats it.\<close>

definition py_str_int :: "int \<Rightarrow> pystr" where
  "py_str_int i = (if i < 0 then chr CHR ''-'' # digits (nat (- i)) else digits (nat i))"

definition full_url :: "env \<Rightarrow> cell \<Rightarrow> int \<Rightarrow> int \<Rightarrow> int \<Rightarrow> int \<Rightarrow> pystr" where
  "full_url E airport_code year month date hour =
     BASE_WEBSITE E @ str ''/'' @ format_cell airport_code @ str ''/?year='' @ py_str_int year
       @ str ''&month='' @ py_str_int month @ str ''&date='' @ py_str_int date
       @ str ''&hour='' @ py_str_int hour"

text \<open>
  The extractor (lines 136 and 142): the pattern, then the decoder on \<open>group(1)\<close>. \<open>None\<close>
  is for a text without a match; otherwise the result is what \<open>json.loads\<close> returns or
  raises.
\<close>

definition extract_document :: "env \<Rightarrow> pystr \<Rightarrow> (exn + json) option" where
  "extract_document E text = map_option (json_loads E) (re_search text)"

text \<open>The flattener (lines 147 to 163): the \<open>try\<close> with its handler and its logging.\<close>

definition flatten_logged :: "cell \<Rightarrow> int \<Rightarrow> json \<Rightarrow> pydict list result" where
  "flatten_logged airport_code hour json_data =
     (case flatten json_data of
        Inr flights \<Rightarrow> (Inr flights, [Log INFO (FlightsFound (length flights) airport_code hour)])
      | Inl e \<Rightarrow>
          if is_KeyError e then (Inr [], [Log ERROR (KeyMissing airport_code hour e)])
          else (Inl e, []))"

text \<open>
  The whole function. Each handler takes the exceptions of its class and lets every other
  one through: \<open>requests.RequestException\<close> at line 128, \<open>json.JSONDecodeError\<close> at line
  143, \<open>KeyError\<close> at line 161.
\<close>

definition scrap_flight_stats ::
  "env \<Rightarrow> cell \<Rightarrow> int \<Rightarrow> int \<Rightarrow> int \<Rightarrow> int \<Rightarrow> pydict list result" where
  "scrap_flight_stats E airport_code year month date hour =
     (let url = full_url E airport_code year month date hour;
          t0 = [Log INFO (FetchingData airport_code hour url), HttpGet url]
      in case http_get E url of
           Inl e \<Rightarrow>
             if is_RequestException e
             then (Inr [], t0 @ [Log ERROR (FetchFailed airport_code hour e)])
             else (Inl e, t0)
         | Inr text \<Rightarrow>
             (let t1 = t0 @ [Log DEBUG (ResponseSnippet (take 500 text))] in
              case extract_document E text of
                None \<Rightarrow> (Inr [], t1 @ [Log WARNING (NoJsonData airport_code hour url)])
              | Some (Inl e) \<Rightarrow>
                  if is_JSONDecodeError e
                  then (Inr [], t1 @ [Log ERROR (JsonDecodeFailed airport_code hour e)])
                  else (Inl e, t1)
              | Some (Inr json_data) \<Rightarrow>
                  (case flatten_logged airport_code hour json_data of
                     (r, t2) \<Rightarrow> (r, t1 @ t2))))"

section \<open>pandas: \<open>json_normalize\<close> and the column index\<close>

text \<open>
  \<open>json_normalize\<close> of a list of dicts with the default arguments
  (\<open>_simple_json_normalize\<close>): the values of a row that are not dicts keep their keys and
  come first, the nested dicts follow, flattened, with the path of keys joined by the
  separator; then the frame is built from the list of flat dicts, the columns in the
  order in which the keys are first met.
\<close>

definition is_dict :: "json \<Rightarrow> bool" where
  "is_dict v = (case v of JObj _ \<Rightarrow> True | _ \<Rightarrow> False)"

text \<open>
  The key of a nested value: \<open>f"{key_string}{separator}{key}"\<close>, and at the top, where
  \<open>key_string\<close> is empty, \<open>removeprefix(separator)\<close> takes the separator off again.
\<close>

definition new_key :: "pystr \<Rightarrow> pystr \<Rightarrow> pystr" where
  "new_key key_string key =
     (if key_string = [] then key else key_string @ [chr CHR ''.''] @ key)"

fun normalise_json :: "json \<Rightarrow> pystr \<Rightarrow> pydict \<Rightarrow> pydict"
  and normalise_items :: "pydict \<Rightarrow> pystr \<Rightarrow> pydict \<Rightarrow> pydict" where
  "normalise_json (JObj kvs) key_string nd = normalise_items kvs key_string nd"
| "normalise_json v key_string nd = AList.update key_string v nd"
| "normalise_items [] key_string nd = nd"
| "normalise_items ((key, v) # kvs) key_string nd =
     normalise_items kvs key_string (normalise_json v (new_key key_string key) nd)"

definition normalise_json_ordered :: "pydict \<Rightarrow> pydict" where
  "normalise_json_ordered data =
     (let top_dict = filter (\<lambda>kv. \<not> is_dict (snd kv)) data;
          nested_dict = normalise_json (JObj (filter (\<lambda>kv. is_dict (snd kv)) data)) [] []
      in fold (\<lambda>kv d. AList.update (fst kv) (snd kv) d) nested_dict top_dict)"

text \<open>
  \<open>_normalise_json\<close> calls itself for every value of a dict, so a value takes as many
  calls, one inside the other, as there are dicts on the longest way down into it, and
  one more. \<open>_normalise_json_ordered\<close> starts it on the dict of the values that are
  dicts; beyond what the recursion limit allows it raises \<open>RecursionError\<close>.
\<close>

fun normalise_calls :: "json \<Rightarrow> nat"
  and normalise_calls_items :: "pydict \<Rightarrow> nat" where
  "normalise_calls (JObj kvs) = Suc (normalise_calls_items kvs)"
| "normalise_calls v = 1"
| "normalise_calls_items [] = 0"
| "normalise_calls_items ((key, v) # kvs) = max (normalise_calls v) (normalise_calls_items kvs)"

definition too_nested :: "env \<Rightarrow> pydict \<Rightarrow> bool" where
  "too_nested E data =
     (normalize_depth E < normalise_calls (JObj (filter (\<lambda>kv. is_dict (snd kv)) data)))"

definition first_seen :: "'a list \<Rightarrow> 'a list" where
  "first_seen xs = rev (remdups (rev xs))"

definition DataFrame :: "pydict list \<Rightarrow> dataframe" where
  "DataFrame ds =
     (let cols = first_seen (concat (map (map fst) ds))
      in \<lparr>columns = cols, rows = map (\<lambda>d. map (map_of d) cols) ds\<rparr>)"

definition json_normalize :: "pydict list \<Rightarrow> dataframe" where
  "json_normalize data = DataFrame (map normalise_json_ordered data)"

text \<open>\<open>Index.str.replace('.', '_')\<close>: a pattern of one character is taken literally.\<close>

definition str_replace :: "nat \<Rightarrow> nat \<Rightarrow> pystr \<Rightarrow> pystr" where
  "str_replace old new s = map (\<lambda>c. if c = old then new else c) s"

definition head :: "dataframe \<Rightarrow> dataframe" where
  "head df = df\<lparr>rows := take 5 (rows df)\<rparr>"

section \<open>arrivals.py: \<open>main\<close>\<close>

text \<open>The two nested loops (lines 69 to 71); \<open>flights\<close> is the list they extend.\<close>

fun scrap_hours ::
  "env \<Rightarrow> cell \<Rightarrow> int \<times> int \<times> int \<Rightarrow> int list \<Rightarrow> pydict list \<Rightarrow> pydict list result" where
  "scrap_hours E airport_code tmr [] flights = (Inr flights, [])"
| "scrap_hours E airport_code tmr (hour # hours) flights =
     (case scrap_flight_stats E airport_code (fst tmr) (fst (snd tmr)) (snd (snd tmr)) hour of
        (Inl e, t) \<Rightarrow> (Inl e, t)
      | (Inr found, t) \<Rightarrow>
          (case scrap_hours E airport_code tmr hours (flights @ found) of
             (r, t') \<Rightarrow> (r, t @ t')))"

fun scrap_airports ::
  "env \<Rightarrow> int \<times> int \<times> int \<Rightarrow> int list \<Rightarrow> cell list \<Rightarrow> pydict list \<Rightarrow> pydict list result" where
  "scrap_airports E tmr valid_hours [] flights = (Inr flights, [])"
| "scrap_airports E tmr valid_hours (airport_code # airport_codes) flights =
     (case scrap_hours E airport_code tmr valid_hours flights of
        (Inl e, t) \<Rightarrow> (Inl e, t)
      | (Inr flights', t) \<Rightarrow>
          (case scrap_airports E tmr valid_hours airport_codes flights' of
             (r, t') \<Rightarrow> (r, t @ t')))"

definition valid_hours :: "int list" where
  "valid_hours = [0, 6, 12, 18]"

text \<open>
  Lines 73 to 92: what \<open>main\<close> does with the flights it has collected. Nothing here is
  inside a \<open>try\<close>: an exception of \<open>pd.json_normalize\<close>, of \<open>create_dir\<close> or of a \<open>to_csv\<close>
  ends the run where it is raised.
\<close>

definition output_paths :: "env \<Rightarrow> pystr list" where
  "output_paths E =
     [path_join (DBT_DATA_DIR E) (OUTPUT_FILE_NAME E), path_join (OUTPUT_DIR E) (OUTPUT_FILE_NAME E)]"

definition output_table :: "pydict list \<Rightarrow> dataframe" where
  "output_table flights =
     (let df = json_normalize flights
      in df\<lparr>columns := map (str_replace (chr CHR ''.'') (chr CHR ''_'')) (columns df)\<rparr>)"

text \<open>The loop over the output paths (lines 87 to 89).\<close>

fun save_all :: "env \<Rightarrow> dataframe \<Rightarrow> pystr list \<Rightarrow> unit result" where
  "save_all E df [] = (Inr (), [])"
| "save_all E df (file_path # file_paths) =
     (let t = [Log INFO (SavingTo file_path), ToCsv file_path df False (str ''utf-8'')] in
      case to_csv E file_path df of
        Some e \<Rightarrow> (Inl e, t)
      | None \<Rightarrow> (case save_all E df file_paths of (r, t') \<Rightarrow> (r, t @ t')))"

definition write_flights :: "env \<Rightarrow> pydict list \<Rightarrow> unit result" where
  "write_flights E flights =
     (if flights = [] then (Inr (), [Log WARNING NoFlightData])
      else if list_ex (too_nested E) flights then (Inl RecursionError, [])
      else (let df = output_table flights; t0 = [CreateDir (OUTPUT_DIR E)] in
            case create_dir E (OUTPUT_DIR E) of
              Some e \<Rightarrow> (Inl e, t0)
            | None \<Rightarrow>
                (case save_all E df (output_paths E) of
                   (Inl e, t1) \<Rightarrow> (Inl e, t0 @ t1)
                 | (Inr u, t1) \<Rightarrow>
                     (Inr (), t0 @ t1 @ [Log INFO (SampleResults (head df)), Log INFO Done]))))"

definition main :: "env \<Rightarrow> unit result" where
  "main E =
     (let tmr = tomorrow E;
          t0 = [Log INFO (ScrapingFor (fst tmr) (fst (snd tmr)) (snd (snd tmr)))]
      in case get_airport_code_list E (str ''ICAO'') (str ''Tunisia'') of
           (Inl e, t1) \<Rightarrow> (Inl e, t0 @ t1)
         | (Inr airport_codes, t1) \<Rightarrow>
             (let t2 = t0 @ t1 @ [Log INFO (AirportCodes airport_codes)] in
              case scrap_airports E tmr valid_hours airport_codes [] of
                (Inl e, t3) \<Rightarrow> (Inl e, t2 @ t3)
              | (Inr flights, t3) \<Rightarrow>
                  (case write_flights E flights of (r, t4) \<Rightarrow> (r, t2 @ t3 @ t4))))"

fun is_ToCsv :: "event \<Rightarrow> bool" where
  "is_ToCsv (ToCsv _ _ _ _) = True"
| "is_ToCsv _ = False"

fun is_HttpGet :: "event \<Rightarrow> bool" where
  "is_HttpGet (HttpGet _) = True"
| "is_HttpGet _ = False"

section \<open>The fixed path into a document\<close>

text \<open>
  The vocabulary of the claims about the flattener. \<open>lookup_path d p\<close> follows the keys of
  \<open>p\<close> through nested dicts; \<open>first_missing d p\<close> is the first key of \<open>p\<close> that the dict
  reached so far does not have (\<open>None\<close> when the path is there, or runs into a value that
  is not a dict). The flattener reads the flight list at \<open>flights_path\<close> and the four
  header fields, in the order of \<open>header_fields\<close>, under \<open>header_path\<close>.
\<close>

fun lookup_path :: "json \<Rightarrow> pystr list \<Rightarrow> json option" where
  "lookup_path d [] = Some d"
| "lookup_path d (k # ks) =
     (case d of
        JObj kvs \<Rightarrow> (case map_of kvs k of None \<Rightarrow> None | Some v \<Rightarrow> lookup_path v ks)
      | _ \<Rightarrow> None)"

fun first_missing :: "json \<Rightarrow> pystr list \<Rightarrow> pystr option" where
  "first_missing d [] = None"
| "first_missing d (k # ks) =
     (case d of
        JObj kvs \<Rightarrow> (case map_of kvs k of None \<Rightarrow> Some k | Some v \<Rightarrow> first_missing v ks)
      | _ \<Rightarrow> None)"

definition tracker_path :: "pystr list" where
  "tracker_path = [str ''props'', str ''initialState'', str ''flightTracker'']"

definition flights_path :: "pystr list" where
  "flights_path = tracker_path @ [str ''route'', str ''flights'']"

definition header_path :: "pystr list" where
  "header_path = tracker_path @ [str ''route'', str ''header'']"

definition header_fields :: "pystr list list" where
  "header_fields =
     [[str ''date''], [str ''arrivalAirport'', str ''iata''],
      [str ''arrivalAirport'', str ''icao''], [str ''arrivalAirport'', str ''name'']]"

fun first_some :: "'a option list \<Rightarrow> 'a option" where
  "first_some [] = None"
| "first_some (None # xs) = first_some xs"
| "first_some (Some x # xs) = Some x"

text \<open>The first key that is missing on the way to a header field, in the order of reading.\<close>

definition header_missing :: "json \<Rightarrow> pystr option" where
  "header_missing doc =
     first_some (map (\<lambda>p. first_missing doc (header_path @ p)) header_fields)"

text \<open>A flight with the four fields assigned, one after the other.\<close>

definition with_header :: "json \<Rightarrow> json \<Rightarrow> json \<Rightarrow> json \<Rightarrow> pydict \<Rightarrow> pydict" where
  "with_header d i c n f =
     AList.update (str ''airport_name'') n (AList.update (str ''icao'') c
       (AList.update (str ''iata'') i (AList.update (str ''date'') d f)))"

text \<open>A chain of subscriptions \<open>d[k1][k2]...\<close>.\<close>

fun walk :: "json \<Rightarrow> pystr list \<Rightarrow> exn + json" where
  "walk d [] = Inr d"
| "walk d (k # ks) = and_then (getitem d k) (\<lambda>v. walk v ks)"

section \<open>Columns, windows and their records\<close>

text \<open>
  The vocabulary of the claims about the aggregator. \<open>join_keys sep\<close> is \<open>sep.join\<close>;
  \<open>record_paths r\<close> lists the paths of keys that lead to the values of \<open>r\<close> that are not
  dicts, the top-level ones first, as \<open>json_normalize\<close> meets them; \<open>window_url\<close> and
  \<open>window_records\<close> are the URL that \<open>main\<close> requests for an airport and an hour, and the
  records that \<open>scrap_flight_stats\<close> returns for them.
\<close>

abbreviation (input) dot :: nat where
  "dot \<equiv> of_char CHR ''.''"

abbreviation (input) underscore :: nat where
  "underscore \<equiv> of_char CHR ''_''"

fun join_keys :: "nat \<Rightarrow> pystr list \<Rightarrow> pystr" where
  "join_keys sep [] = []"
| "join_keys sep [k] = k"
| "join_keys sep (k # ks) = k @ sep # join_keys sep ks"

fun leaf_paths :: "json \<Rightarrow> pystr list list"
  and leaf_paths_items :: "pydict \<Rightarrow> pystr list list" where
  "leaf_paths (JObj kvs) = leaf_paths_items kvs"
| "leaf_paths v = [[]]"
| "leaf_paths_items [] = []"
| "leaf_paths_items ((k, v) # kvs) = map ((#) k) (leaf_paths v) @ leaf_paths_items kvs"

definition record_paths :: "pydict \<Rightarrow> pystr list list" where
  "record_paths r =
     map (\<lambda>kv. [fst kv]) (filter (\<lambda>kv. \<not> is_dict (snd kv)) r)
     @ leaf_paths_items (filter (\<lambda>kv. is_dict (snd kv)) r)"

definition window_url :: "env \<Rightarrow> cell \<Rightarrow> int \<Rightarrow> pystr" where
  "window_url E airport_code hour =
     full_url E airport_code (fst (tomorrow E)) (fst (snd (tomorrow E))) (snd (snd (tomorrow E))) hour"

definition window_records :: "env \<Rightarrow> cell \<Rightarrow> int \<Rightarrow> pydict list" where
  "window_records E airport_code hour =
     (case fst (scrap_flight_stats E airport_code (fst (tomorrow E)) (fst (snd (tomorrow E)))
                  (snd (snd (tomorrow E))) hour) of
        Inr found \<Rightarrow> found
      | Inl e \<Rightarrow> [])"

text \<open>
  The exception that the window raises, one that no handler of \<open>scrap_flight_stats\<close>
  takes; \<open>None\<close> when the window returns.
\<close>

definition window_raises :: "env \<Rightarrow> cell \<Rightarrow> int \<Rightarrow> exn option" where
  "window_raises E airport_code hour =
     (case fst (scrap_flight_stats E airport_code (fst (tomorrow E)) (fst (snd (tomorrow E)))
                  (snd (snd (tomorrow E))) hour) of
        Inr found \<Rightarrow> None
      | Inl e \<Rightarrow> Some e)"

text \<open>The two loops of \<open>main\<close> as one loop over the list of windows.\<close>

fun collect :: "env \<Rightarrow> (cell \<times> int) list \<Rightarrow> pydict list \<Rightarrow> pydict list result" where
  "collect E [] flights = (Inr flights, [])"
| "collect E ((airport_code, hour) # ws) flights =
     (case scrap_flight_stats E airport_code (fst (tomorrow E)) (fst (snd (tomorrow E)))
             (snd (snd (tomorrow E))) hour of
        (Inl e, t) \<Rightarrow> (Inl e, t)
      | (Inr found, t) \<Rightarrow>
          (case collect E ws (flights @ found) of
             (r, t') \<Rightarrow> (r, t @ t')))"

section \<open>Example runs\<close>

text \<open>
  Documents of the shape the site embeds: a flight list and a header under
  \<open>props.initialState.flightTracker.route\<close>.
\<close>

definition document :: "json \<Rightarrow> json \<Rightarrow> json" where
  "document flights header =
     JObj [(str ''props'', JObj [(str ''initialState'', JObj [(str ''flightTracker'',
       JObj [(str ''route'', JObj [(str ''flights'', flights), (str ''header'', header)])])])])]"

definition arrival_airport :: json where
  "arrival_airport =
     JObj [(str ''iata'', JStr (str ''TUN'')), (str ''icao'', JStr (str ''DTTA'')),
           (str ''name'', JStr (str ''Tunis-Carthage''))]"

definition header_tunis :: json where
  "header_tunis =
     JObj [(str ''date'', JStr (str ''2025-06-01'')), (str ''arrivalAirport'', arrival_airport)]"

definition header_no_date :: json where
  "header_no_date = JObj [(str ''arrivalAirport'', arrival_airport)]"

definition flight_tu723 :: pydict where
  "flight_tu723 = [(str ''carrier'', JStr (str ''TU'')), (str ''flightNumber'', JStr (str ''723''))]"

definition flight_af1084 :: pydict where
  "flight_af1084 = [(str ''carrier'', JStr (str ''AF'')), (str ''flightNumber'', JStr (str ''1084''))]"

text \<open>Two flights under the header of Tunis-Carthage.\<close>

definition doc_two_flights :: json where
  "doc_two_flights = document (JArr [JObj flight_tu723, JObj flight_af1084]) header_tunis"

text \<open>A flight entry that has a field \<open>date\<close> of its own.\<close>

definition doc_own_date :: json where
  "doc_own_date = document (JArr [JObj [(str ''date'', JStr (str ''1999-12-31''))]]) header_tunis"

text \<open>The header without its \<open>date\<close>: under two flights, and under an empty flight list.\<close>

definition doc_no_date :: json where
  "doc_no_date = document (JArr [JObj flight_tu723, JObj flight_af1084]) header_no_date"

definition doc_no_date_no_flights :: json where
  "doc_no_date_no_flights = document (JArr []) header_no_date"

text \<open>
  A flight list that holds a number: under a header without \<open>arrivalAirport\<close>, and
  under the header without \<open>date\<close>. A document whose flight tracker has no \<open>route\<close>.
\<close>

definition header_no_airport :: json where
  "header_no_airport = JObj [(str ''date'', JStr (str ''2025-06-01''))]"

definition doc_int_entry :: json where
  "doc_int_entry = document (JArr [JInt 1]) header_no_airport"

definition doc_int_no_date :: json where
  "doc_int_no_date = document (JArr [JInt 1]) header_no_date"

definition doc_no_route :: json where
  "doc_no_route =
     JObj [(str ''props'', JObj [(str ''initialState'', JObj [(str ''flightTracker'', JObj [])])])]"

text \<open>
  A run in which the database accepts the connection and the query times out, while the
  CSV extract lists one airport of Tunisia and one of France.
\<close>

definition airports_csv :: csv_table where
  "airports_csv =
     \<lparr>csv_columns = [str ''Airport_ID'', str ''Country'', str ''IATA'', str ''ICAO''],
      csv_rows = [[Other (str ''1''), Str (str ''Tunisia''), Str (str ''TUN''), Str (str ''DTTA'')],
                  [Other (str ''2''), Str (str ''France''), Str (str ''CDG''), Str (str ''LFPG'')]]\<rparr>"

definition env_timeout :: env where
  "env_timeout =
     \<lparr>PG_URL = str ''postgresql+psycopg2://u:p@db:5432/flights'',
      BASE_WEBSITE = str ''https://site.test/arrivals'',
      DBT_DATA_DIR = str ''/app/dbt/data'',
      OUTPUT_DIR = str ''/app/extract_load/output'',
      INPUT_FILE_NAME = str ''airports.csv'',
      OUTPUT_FILE_NAME = str ''arrivals.csv'',
      db_connect = (\<lambda>url. None),
      db_execute = (\<lambda>sql params. Inl (OtherException (str ''timeout''))),
      read_csv = (\<lambda>file. Inr airports_csv),
      http_get = (\<lambda>url. Inl (RequestException (str ''404''))),
      tomorrow = (2025, 6, 1),
      create_dir = (\<lambda>path. None),
      to_csv = (\<lambda>path df. None),
      int_max_str_digits = 4300,
      decoder_depth = 990,
      normalize_depth = 990\<rparr>"

text \<open>The same run, interrupted from the keyboard while the connection is made.\<close>

definition env_interrupt :: env where
  "env_interrupt = env_timeout\<lparr>db_connect := (\<lambda>url. Some KeyboardInterrupt)\<rparr>"

text \<open>
  The assignment of an object to the marker, as a script of a page writes it, and a run in
  which the recursion limit leaves the decoder no container to enter.
\<close>

definition assignment :: pystr where
  "assignment = str ''__NEXT_DATA__ = {\"a\":1};''"

definition env_no_depth :: env where
  "env_no_depth = env_timeout\<lparr>decoder_depth := 0\<rparr>"

text \<open>A run in which the site answers every request with a page that carries no data.\<close>

definition maintenance_page :: pystr where
  "maintenance_page = str ''<html><body><p>Down for maintenance; back soon</p></body></html>''"

definition env_maintenance :: env where
  "env_maintenance = env_timeout\<lparr>http_get := (\<lambda>url. Inr maintenance_page)\<rparr>"

text \<open>
  A run over two airports. The site has three flights for each hour of the first airport
  and for the first hour of the second; for the other hours of the second airport it
  answers with an error status, with a page without data, and with a page whose JSON is
  cut short.
\<close>

definition page_dtta :: pystr where
  "page_dtta = str ''<html><script>__NEXT_DATA__ = {\"props\":{\"initialState\":{\"flightTracker\":{\"route\":{\"flights\":[{\"n\":1},{\"n\":2},{\"n\":3}],\"header\":{\"date\":\"2025-06-01\",\"arrivalAirport\":{\"iata\":\"TUN\",\"icao\":\"DTTA\",\"name\":\"Tunis\"}}}}}}};</script></html>''"

definition page_dttj :: pystr where
  "page_dttj = str ''<html><script>__NEXT_DATA__ = {\"props\":{\"initialState\":{\"flightTracker\":{\"route\":{\"flights\":[{\"n\":4},{\"n\":5},{\"n\":6}],\"header\":{\"date\":\"2025-06-01\",\"arrivalAirport\":{\"iata\":\"DJE\",\"icao\":\"DTTJ\",\"name\":\"Djerba\"}}}}}}};</script></html>''"

text \<open>A page whose flight list holds a list where a flight entry should be.\<close>

definition page_list_entry :: pystr where
  "page_list_entry = str ''<html><script>__NEXT_DATA__ = {\"props\":{\"initialState\":{\"flightTracker\":{\"route\":{\"flights\":[[1]],\"header\":{\"date\":\"2025-06-01\",\"arrivalAirport\":{\"iata\":\"TUN\",\"icao\":\"DTTA\",\"name\":\"Tunis\"}}}}}}};</script></html>''"

definition page_broken :: pystr where
  "page_broken = str ''<html><script>__NEXT_DATA__ = {\"props\":};</script></html>''"

definition demo_url :: "string \<Rightarrow> string \<Rightarrow> pystr" where
  "demo_url code hour =
     str ''https://site.test/arrivals/'' @ str code @ str ''/?year=2025&month=6&date=1&hour='' @ str hour"

definition demo_http :: "pystr \<Rightarrow> exn + pystr" where
  "demo_http url =
     (if url \<in> set [demo_url ''DTTA'' ''0'', demo_url ''DTTA'' ''6'', demo_url ''DTTA'' ''12'',
                     demo_url ''DTTA'' ''18'']
      then Inr page_dtta
      else if url = demo_url ''DTTJ'' ''0'' then Inr page_dttj
      else if url = demo_url ''DTTJ'' ''12'' then Inr maintenance_page
      else if url = demo_url ''DTTJ'' ''18'' then Inr page_broken
      else Inl (RequestException (str ''503 Server Error'')))"

definition env_demo :: env where
  "env_demo = env_timeout\<lparr>
     db_execute := (\<lambda>sql params. Inr [(Str (str ''DTTA''), []), (Str (str ''DTTJ''), [])]),
     http_get := demo_http\<rparr>"

text \<open>
  The same run when the site answers the second request with \<open>page_list_entry\<close>, and
  when the dbt data directory is not there.
\<close>

definition env_list_entry :: env where
  "env_list_entry = env_demo\<lparr>
     http_get := (\<lambda>url. if url = demo_url ''DTTA'' ''6'' then Inr page_list_entry else demo_http url)\<rparr>"

definition no_directory :: exn where
  "no_directory = OtherException (str ''Cannot save file into a non-existent directory: /app/dbt/data'')"

definition env_no_directory :: env where
  "env_no_directory = env_demo\<lparr>
     to_csv := (\<lambda>path df. if path = str ''/app/dbt/data/arrivals.csv'' then Some no_directory else None)\<rparr>"

definition flight_n :: "int \<Rightarrow> string \<Rightarrow> string \<Rightarrow> string \<Rightarrow> pydict" where
  "flight_n n iata icao name =
     [(str ''n'', JInt n), (str ''date'', JStr (str ''2025-06-01'')), (str ''iata'', JStr (str iata)),
      (str ''icao'', JStr (str icao)), (str ''airport_name'', JStr (str name))]"

definition flights_dtta :: "pydict list" where
  "flights_dtta =
     [flight_n 1 ''TUN'' ''DTTA'' ''Tunis'', flight_n 2 ''TUN'' ''DTTA'' ''Tunis'',
      flight_n 3 ''TUN'' ''DTTA'' ''Tunis'']"

definition flights_dttj :: "pydict list" where
  "flights_dttj =
     [flight_n 4 ''DJE'' ''DTTJ'' ''Djerba'', flight_n 5 ''DJE'' ''DTTJ'' ''Djerba'',
      flight_n 6 ''DJE'' ''DTTJ'' ''Djerba'']"

definition demo_flights :: "pydict list" where
  "demo_flights = flights_dtta @ flights_dtta @ flights_dtta @ flights_dtta @ flights_dttj"

text \<open>
  A record with a dot in a key of its own, a hyphen in another, and a nested dict.
\<close>

definition flight_gate :: pydict where
  "flight_gate =
     [(str ''gate.number'', JStr (str ''B7'')), (str ''check-in'', JStr (str ''12'')),
      (str ''carrier'', JObj [(str ''fs'', JStr (str ''TU'')), (str ''name'', JStr (str ''Tunisair''))]),
      (str ''date'', JStr (str ''2025-06-01'')), (str ''iata'', JStr (str ''TUN'')),
      (str ''icao'', JStr (str ''DTTA'')), (str ''airport_name'', JStr (str ''Tunis-Carthage''))]"

section \<open>The resolver\<close>

lemma ReadCsv_db [simp]: "filter is_ReadCsv (snd (get_airport_code_list_db E i c)) = []"
  by (simp add: get_airport_code_list_db_def DatabaseConnection_init_def
      DatabaseConnection_exit_def Let_def split: option.splits sum.splits)

lemma ReadCsv_csv [simp]:
  "filter is_ReadCsv (snd (get_airport_code_list_csv E i c)) =
     [ReadCsv (path_join (OUTPUT_DIR E) (INPUT_FILE_NAME E))]"
  by (simp add: get_airport_code_list_csv_def Let_def split: option.splits sum.splits)

text \<open>
  Claim C9. Once the connection is acquired, \<open>get_airport_code_list_db\<close> connects, runs the
  query and closes the connection, in this order and whatever the query does: the trace
  ends with the close, no connection is open after it, and the outcome of the query is the
  outcome of the function, so an exception of the query reaches the caller unchanged.
\<close>

theorem connection_closed_on_every_exit:
  assumes "DatabaseConnection_init E (PG_URL E) = (Inr self, t0)"
  shows "snd (get_airport_code_list_db E i c) =
           [DbConnect (PG_URL E), DbExecute (select_sql i) [(str ''country'', c)], DbClose]
         \<and> \<not> connection_open b (snd (get_airport_code_list_db E i c))
         \<and> fst (get_airport_code_list_db E i c) =
             (case db_execute E (select_sql i) [(str ''country'', c)] of
                Inl e \<Rightarrow> Inl e
              | Inr fetched \<Rightarrow> Inr (map fst fetched))"
  using assms
  by (auto simp: get_airport_code_list_db_def DatabaseConnection_init_def
      DatabaseConnection_exit_def Let_def split: option.splits sum.splits if_splits)

theorem connection_closed_on_every_exit_witness:
  "DatabaseConnection_init env_timeout (PG_URL env_timeout) =
     (Inr \<lparr>pg_engine = PG_URL env_timeout\<rparr>, [DbConnect (PG_URL env_timeout)])
   \<and> \<not> connection_open True (snd (get_airport_code_list_db env_timeout (str ''ICAO'') (str ''Tunisia'')))
   \<and> fst (get_airport_code_list_db env_timeout (str ''ICAO'') (str ''Tunisia''))
       = Inl (OtherException (str ''timeout''))"
proof -
  have h: "DatabaseConnection_init env_timeout (PG_URL env_timeout) =
     (Inr \<lparr>pg_engine = PG_URL env_timeout\<rparr>, [DbConnect (PG_URL env_timeout)])"
    by (simp add: DatabaseConnection_init_def env_timeout_def)
  show ?thesis
    using h connection_closed_on_every_exit [OF h, of "str ''ICAO''" "str ''Tunisia''" True]
    by (simp add: env_timeout_def)
qed

text \<open>
  Claim C1, as stated, fails: \<open>except Exception\<close> lets a \<open>KeyboardInterrupt\<close> of the primary
  path through, and then the CSV file is never read.
\<close>

theorem fallback_on_any_exception_counterexample:
  "fst (get_airport_code_list_db env_interrupt (str ''ICAO'') (str ''Tunisia'')) = Inl KeyboardInterrupt
   \<and> filter is_ReadCsv (snd (get_airport_code_list env_interrupt (str ''ICAO'') (str ''Tunisia''))) = []
   \<and> fst (get_airport_code_list env_interrupt (str ''ICAO'') (str ''Tunisia'')) = Inl KeyboardInterrupt
   \<and> fst (get_airport_code_list_csv env_interrupt (str ''ICAO'') (str ''Tunisia'')) = Inr [Str (str ''DTTA'')]"
  by (simp add: get_airport_code_list_def get_airport_code_list_db_def get_airport_code_list_csv_def
      DatabaseConnection_init_def env_interrupt_def env_timeout_def airports_csv_def
      path_join_def column_index_def cell_at_def)

text \<open>
  Claim C1, amended. When the primary path raises an exception that derives from
  \<open>Exception\<close>, the CSV path is run exactly once, after the warning, and its outcome (a list
  or an exception) is the outcome of the resolver; when the primary path returns, its list
  is the outcome and the CSV file is not read; an exception that does not derive from
  \<open>Exception\<close> goes through, and the CSV file is not read.
\<close>

theorem fallback_on_exception:
  assumes "get_airport_code_list_db E i c = (r, t)"
  shows "case r of
           Inr codes \<Rightarrow>
             get_airport_code_list E i c = (Inr codes, Log INFO (FetchingCodeList i c) # t)
             \<and> filter is_ReadCsv (snd (get_airport_code_list E i c)) = []
         | Inl e \<Rightarrow>
             if is_Exception e then
               get_airport_code_list E i c =
                 (fst (get_airport_code_list_csv E i c),
                  Log INFO (FetchingCodeList i c) # t @ [Log WARNING (DatabaseFetchFailed e)]
                    @ snd (get_airport_code_list_csv E i c))
               \<and> length (filter is_ReadCsv (snd (get_airport_code_list E i c))) = 1
             else
               get_airport_code_list E i c = (Inl e, Log INFO (FetchingCodeList i c) # t)
               \<and> filter is_ReadCsv (snd (get_airport_code_list E i c)) = []"
proof -
  have db: "filter is_ReadCsv t = []"
    using ReadCsv_db [of E i c] assms by simp
  show ?thesis
    using assms db ReadCsv_csv [of E i c]
    by (cases "get_airport_code_list_csv E i c")
      (auto simp: get_airport_code_list_def split: sum.splits)
qed

theorem fallback_on_exception_witness:
  "get_airport_code_list_db env_timeout (str ''ICAO'') (str ''Tunisia'') =
     (Inl (OtherException (str ''timeout'')),
      [DbConnect (PG_URL env_timeout),
       DbExecute (select_sql (str ''ICAO'')) [(str ''country'', str ''Tunisia'')], DbClose])
   \<and> fst (get_airport_code_list env_timeout (str ''ICAO'') (str ''Tunisia'')) = Inr [Str (str ''DTTA'')]
   \<and> length (filter is_ReadCsv (snd (get_airport_code_list env_timeout (str ''ICAO'') (str ''Tunisia'')))) = 1"
proof -
  have h: "get_airport_code_list_db env_timeout (str ''ICAO'') (str ''Tunisia'') =
     (Inl (OtherException (str ''timeout'')),
      [DbConnect (PG_URL env_timeout),
       DbExecute (select_sql (str ''ICAO'')) [(str ''country'', str ''Tunisia'')], DbClose])"
    by (simp add: get_airport_code_list_db_def DatabaseConnection_init_def
        DatabaseConnection_exit_def env_timeout_def)
  have csv: "fst (get_airport_code_list_csv env_timeout (str ''ICAO'') (str ''Tunisia'')) = Inr [Str (str ''DTTA'')]"
    by (simp add: get_airport_code_list_csv_def env_timeout_def airports_csv_def
        path_join_def column_index_def cell_at_def)
  show ?thesis
    using h csv fallback_on_exception [OF h] by simp
qed

section \<open>The decoder\<close>

text \<open>Every parser leaves less than it was given.\<close>

lemma scanstring_shrinks: "scanstring s = Some (x, r) \<Longrightarrow> length r < length s"
proof (induction s arbitrary: x r rule: length_induct)
  case (1 s)
  note IH = "1.IH" [rule_format]
  show ?case
  proof (cases s)
    case Nil
    with "1.prems" show ?thesis by simp
  next
    case (Cons c cs)
    have step: "length r < length s" if "scanstring t = Some (y, r)" "length t < length s" for t y
      using IH [OF that(2) that(1)] that(2) by simp
    consider (quote) "c = 34" | (esc) "c \<noteq> 34" "c = 92" | (plain) "c \<noteq> 34" "c \<noteq> 92"
      by blast
    then show ?thesis
    proof cases
      case quote
      with "1.prems" Cons show ?thesis by simp
    next
      case plain
      with "1.prems" Cons obtain y where "scanstring cs = Some (y, r)"
        by (auto split: if_splits)
      then show ?thesis using step [of cs y] Cons by simp
    next
      case esc
      show ?thesis
      proof (cases cs)
        case Nil
        with "1.prems" Cons esc show ?thesis by simp
      next
        case c1: (Cons e cs1)
        show ?thesis
        proof (cases "e = 117")
          case False
          with "1.prems" Cons esc c1 obtain y where "scanstring cs1 = Some (y, r)"
            by (auto split: option.splits)
          then show ?thesis using step [of cs1 y] Cons c1 by simp
        next
          case True
          with "1.prems" Cons esc c1 obtain y t where "scanstring t = Some (y, r)"
            and "t = drop 6 (drop 4 cs1) \<or> t = drop 4 cs1"
            by (auto split: list.splits option.splits)
          then show ?thesis using step [of t y] Cons c1 by auto
        qed
      qed
    qed
  qed
qed

lemma length_skip_ws: "length (skip_ws s) \<le> length s"
  by (simp add: skip_ws_def length_dropWhile_le)

lemma skip_ws_Cons: "skip_ws s = d # r \<Longrightarrow> length r < length s"
  using length_skip_ws [of s] by simp

lemma scan_integer_shrinks: "scan_integer s = Some (x, r) \<Longrightarrow> length r < length s"
  using length_dropWhile_le [of is_digit "tl s"]
  by (auto simp: scan_integer_def split: list.splits if_splits)

lemma scan_fraction_shrinks: "scan_fraction s = (x, r) \<Longrightarrow> length r \<le> length s"
  by (auto simp: scan_fraction_def split: list.splits if_splits
      intro: le_trans [OF length_dropWhile_le])

lemma scan_exponent_shrinks: "scan_exponent s = (x, r) \<Longrightarrow> length r \<le> length s"
  by (auto simp: scan_exponent_def Let_def split: list.splits if_splits
      intro: le_trans [OF length_dropWhile_le])

lemma scan_number_shrinks: "scan_number limit s = Some (Inr (v, r)) \<Longrightarrow> length r < length s"
proof -
  assume a: "scan_number limit s = Some (Inr (v, r))"
  define s0 where "s0 = (if s \<noteq> [] \<and> hd s = 45 then tl s else s)"
  from a obtain i s1 where i: "scan_integer s0 = Some (i, s1)"
    by (auto simp: scan_number_def Let_def s0_def split: option.splits)
  obtain f s2 where f: "scan_fraction s1 = (f, s2)" by (cases "scan_fraction s1")
  obtain e s3 where e: "scan_exponent s2 = (e, s3)" by (cases "scan_exponent s2")
  from a i f e have "r = s3"
    by (auto simp: scan_number_def Let_def s0_def split: if_splits)
  moreover have "length s0 \<le> length s" by (simp add: s0_def)
  ultimately show ?thesis
    using scan_integer_shrinks [OF i] scan_fraction_shrinks [OF f] scan_exponent_shrinks [OF e]
    by simp
qed

lemma prefix_drop_shrinks: "prefix p s \<Longrightarrow> p \<noteq> [] \<Longrightarrow> length (drop (length p) s) < length s"
  by (auto simp: prefix_def)

lemma scan_atom_shrinks: "scan_atom limit s = Inr (v, r) \<Longrightarrow> length r < length s"
  using prefix_drop_shrinks [of "str ''null''" s] prefix_drop_shrinks [of "str ''true''" s]
    prefix_drop_shrinks [of "str ''false''" s] prefix_drop_shrinks [of "str ''NaN''" s]
    prefix_drop_shrinks [of "str ''Infinity''" s] prefix_drop_shrinks [of "str ''-Infinity''" s]
  by (auto simp: scan_atom_def split: if_splits option.splits dest: scan_number_shrinks)

lemma parse_shrinks:
  "(\<forall>n v r. parse_value limit n s = Inr (v, r) \<longrightarrow> length r < length s)
   \<and> (\<forall>n acc vs r. parse_elems limit n s acc = Inr (vs, r) \<longrightarrow> length r < length s)
   \<and> (\<forall>n acc m r. parse_members limit n s acc = Inr (m, r) \<longrightarrow> length r < length s)"
proof (induction s rule: length_induct)
  case (1 s)
  note simps = parse_value.simps parse_elems.simps parse_members.simps
  have IHe: "length r < length t" if "length t < length s" "parse_elems limit n t acc = Inr (vs, r)"
    for t n acc vs r using "1.IH" that by blast
  have IHm: "length r < length t" if "length t < length s" "parse_members limit n t acc = Inr (m, r)"
    for t n acc m r using "1.IH" that by blast
  have IHv: "length r < length t" if "length t < length s" "parse_value limit n t = Inr (v, r)"
    for t n v r using "1.IH" that by blast
  have V: "length r < length s" if pv: "parse_value limit n s = Inr (v, r)" for n v r
  proof (cases s)
    case Nil
    with pv show ?thesis by (subst (asm) parse_value.simps) simp
  next
    case (Cons c cs)
    consider (str) "c = 34" | (obj) "c \<noteq> 34" "c = 123" | (arr) "c \<noteq> 34" "c \<noteq> 123" "c = 91"
      | (atom) "c \<noteq> 34" "c \<noteq> 123" "c \<noteq> 91"
      by blast
    then show ?thesis
    proof cases
      case str
      with pv Cons obtain x where "scanstring cs = Some (x, r)"
        by (subst (asm) parse_value.simps) (auto simp del: simps scanstring.simps split: option.splits)
      from scanstring_shrinks [OF this] Cons show ?thesis by simp
    next
      case atom
      with pv Cons have "scan_atom limit s = Inr (v, r)"
        by (subst (asm) parse_value.simps) (simp del: simps)
      then show ?thesis by (rule scan_atom_shrinks)
    next
      case obj
      with pv Cons have n: "n \<noteq> 0"
        by (subst (asm) parse_value.simps) (auto simp del: simps split: if_splits)
      show ?thesis
      proof (cases "skip_ws cs")
        case Nil
        with pv Cons obj n show ?thesis
          by (subst (asm) parse_value.simps) (simp del: simps)
      next
        case sk: (Cons d r0)
        from skip_ws_Cons [OF sk] have l: "length (d # r0) < length s" using Cons by simp
        show ?thesis
        proof (cases "d = 125")
          case True
          with pv Cons obj sk n have "r = r0"
            by (subst (asm) parse_value.simps) (simp del: simps)
          with l show ?thesis by simp
        next
          case False
          with pv Cons obj sk n obtain m where "parse_members limit (n - 1) (d # r0) [] = Inr (m, r)"
            by (subst (asm) parse_value.simps)
              (cases "parse_members limit (n - 1) (d # r0) []"; auto simp del: simps)
          from IHm [OF l this] l show ?thesis by simp
        qed
      qed
    next
      case arr
      with pv Cons have n: "n \<noteq> 0"
        by (subst (asm) parse_value.simps) (auto simp del: simps split: if_splits)
      show ?thesis
      proof (cases "skip_ws cs")
        case Nil
        with pv Cons arr n show ?thesis
          by (subst (asm) parse_value.simps) (simp del: simps)
      next
        case sk: (Cons d r0)
        from skip_ws_Cons [OF sk] have l: "length (d # r0) < length s" using Cons by simp
        show ?thesis
        proof (cases "d = 93")
          case True
          with pv Cons arr sk n have "r = r0"
            by (subst (asm) parse_value.simps) (simp del: simps)
          with l show ?thesis by simp
        next
          case False
          with pv Cons arr sk n obtain vs where "parse_elems limit (n - 1) (d # r0) [] = Inr (vs, r)"
            by (subst (asm) parse_value.simps)
              (cases "parse_elems limit (n - 1) (d # r0) []"; auto simp del: simps)
          from IHe [OF l this] l show ?thesis by simp
        qed
      qed
    qed
  qed
  have E: "length r' < length s" if pe: "parse_elems limit n s acc = Inr (vs, r')" for n acc vs r'
  proof -
    from pe obtain v r where pv: "parse_value limit n s = Inr (v, r)"
      by (subst (asm) parse_elems.simps) (auto simp del: simps split: sum.splits)
    from pe pv obtain d r1 where sk: "skip_ws r = d # r1"
      by (subst (asm) parse_elems.simps) (auto simp del: simps split: list.splits)
    from V [OF pv] skip_ws_Cons [OF sk] have l: "length r1 < length s" by simp
    show ?thesis
    proof (cases "d = 93")
      case True
      with pe pv sk have "r' = r1"
        by (subst (asm) parse_elems.simps) (simp del: simps)
      with l show ?thesis by simp
    next
      case False
      with pe pv sk have "parse_elems limit n (skip_ws r1) (acc @ [v]) = Inr (vs, r')"
        by (subst (asm) parse_elems.simps) (auto simp del: simps split: if_splits)
      moreover from l length_skip_ws [of r1] have "length (skip_ws r1) < length s" by simp
      ultimately show ?thesis using IHe by fastforce
    qed
  qed
  have M: "length r' < length s" if pm: "parse_members limit n s acc = Inr (m, r')" for n acc m r'
  proof -
    from pm obtain q s1 where s: "s = q # s1"
      by (subst (asm) parse_members.simps) (auto simp del: simps split: list.splits)
    from pm s obtain key r where ss: "scanstring s1 = Some (key, r)"
      by (subst (asm) parse_members.simps) (auto simp del: simps scanstring.simps split: if_splits option.splits)
    from pm s ss obtain col r1 where sk: "skip_ws r = col # r1"
      by (subst (asm) parse_members.simps) (auto simp del: simps scanstring.simps split: if_splits list.splits)
    from scanstring_shrinks [OF ss] skip_ws_Cons [OF sk] s have l1: "length r1 < length s" by simp
    with length_skip_ws [of r1] have l1': "length (skip_ws r1) < length s" by simp
    from pm s ss sk obtain v r2 where pv: "parse_value limit n (skip_ws r1) = Inr (v, r2)"
      by (subst (asm) parse_members.simps) (auto simp del: simps scanstring.simps split: if_splits sum.splits)
    from IHv [OF l1' pv] l1' have l2: "length r2 < length s" by simp
    from pm s ss sk pv obtain d r3 where sk2: "skip_ws r2 = d # r3"
      by (subst (asm) parse_members.simps) (auto simp del: simps scanstring.simps split: if_splits list.splits)
    from skip_ws_Cons [OF sk2] l2 have l3: "length r3 < length s" by simp
    show ?thesis
    proof (cases "d = 125")
      case True
      with pm s ss sk pv sk2 have "r' = r3"
        by (subst (asm) parse_members.simps) (auto simp del: simps scanstring.simps split: if_splits)
      with l3 show ?thesis by simp
    next
      case False
      with pm s ss sk pv sk2
      have "parse_members limit n (skip_ws r3) (AList.update key v acc) = Inr (m, r')"
        by (subst (asm) parse_members.simps) (auto simp del: simps scanstring.simps split: if_splits)
      moreover from l3 length_skip_ws [of r3] have "length (skip_ws r3) < length s" by simp
      ultimately show ?thesis using IHm by fastforce
    qed
  qed
  from V E M show ?case by blast
qed

text \<open>The comparisons of lengths in the recursive descent never decide anything.\<close>

lemma parse_elems_unguarded:
  "parse_elems limit n s acc =
     (case parse_value limit n s of
        Inl e \<Rightarrow> Inl e
      | Inr (v, r) \<Rightarrow>
          (case skip_ws r of
             [] \<Rightarrow> Inl JSONDecodeError
           | d # r1 \<Rightarrow>
               if d = chr CHR '']'' then Inr (acc @ [v], r1)
               else if d = chr CHR '','' then parse_elems limit n (skip_ws r1) (acc @ [v])
               else Inl JSONDecodeError))"
proof (cases "parse_value limit n s")
  case (Inl e)
  then show ?thesis by (subst parse_elems.simps) simp
next
  case (Inr p)
  obtain v r where p: "p = (v, r)" by (cases p)
  from Inr p parse_shrinks have l: "length r < length s" by blast
  show ?thesis
  proof (cases "skip_ws r")
    case Nil
    with Inr p show ?thesis by (subst parse_elems.simps) simp
  next
    case (Cons d r1)
    from skip_ws_Cons [OF Cons] l have "length r1 < length s" by simp
    with Inr p Cons show ?thesis
      by (subst parse_elems.simps) (simp del: parse_elems.simps parse_value.simps)
  qed
qed

lemma parse_members_unguarded:
  "parse_members limit n s acc =
     (case s of
        [] \<Rightarrow> Inl JSONDecodeError
      | q # s1 \<Rightarrow>
          if q \<noteq> chr CHR 0x22 then Inl JSONDecodeError
          else (case scanstring s1 of
                  None \<Rightarrow> Inl JSONDecodeError
                | Some (key, r) \<Rightarrow>
                    (case skip_ws r of
                       [] \<Rightarrow> Inl JSONDecodeError
                     | col # r1 \<Rightarrow>
                         if col \<noteq> chr CHR '':'' then Inl JSONDecodeError
                         else (case parse_value limit n (skip_ws r1) of
                                 Inl e \<Rightarrow> Inl e
                               | Inr (v, r2) \<Rightarrow>
                                   (case skip_ws r2 of
                                      [] \<Rightarrow> Inl JSONDecodeError
                                    | d # r3 \<Rightarrow>
                                        if d = chr CHR ''}'' then Inr (AList.update key v acc, r3)
                                        else if d = chr CHR '',''
                                        then parse_members limit n (skip_ws r3) (AList.update key v acc)
                                        else Inl JSONDecodeError)))))"
proof (cases s)
  case Nil
  then show ?thesis by (subst parse_members.simps) simp
next
  case s: (Cons q s1)
  note simps = parse_value.simps parse_elems.simps parse_members.simps scanstring.simps
  show ?thesis
  proof (cases "scanstring s1")
    case None
    with s show ?thesis by (subst parse_members.simps) (simp del: simps)
  next
    case (Some p)
    obtain key r where p: "p = (key, r)" by (cases p)
    from Some p have l: "length r < length s1" by (simp add: scanstring_shrinks del: simps)
    show ?thesis
    proof (cases "skip_ws r")
      case Nil
      with s Some p show ?thesis by (subst parse_members.simps) (simp del: simps)
    next
      case sk: (Cons col r1)
      from skip_ws_Cons [OF sk] l s have l1: "\<not> length s \<le> length r1" by simp
      show ?thesis
      proof (cases "parse_value limit n (skip_ws r1)")
        case (Inl e)
        with s Some p sk l1 show ?thesis by (subst parse_members.simps) (simp del: simps)
      next
        case pv: (Inr p2)
        obtain v r2 where p2: "p2 = (v, r2)" by (cases p2)
        from pv p2 parse_shrinks have "length r2 < length (skip_ws r1)" by blast
        with length_skip_ws [of r1] l1 have l2: "length r2 < length s" by simp
        show ?thesis
        proof (cases "skip_ws r2")
          case Nil
          with s Some p sk l1 pv p2 show ?thesis by (subst parse_members.simps) (simp del: simps)
        next
          case sk2: (Cons d r3)
          from skip_ws_Cons [OF sk2] l2 have "length r3 < length s" by simp
          with s Some p sk l1 pv p2 sk2 show ?thesis
            by (subst parse_members.simps) (simp del: simps)
        qed
      qed
    qed
  qed
qed

section \<open>The extractor\<close>

lemma match_here_prefix: "\<not> prefix marker s \<Longrightarrow> match_here s = None"
  by (simp add: match_here_def)

text \<open>\<open>re_search\<close> finds nothing exactly when the pattern matches at no position.\<close>

lemma re_search_None_iff:
  "re_search s = None \<longleftrightarrow> (\<forall>i\<le>length s. match_here (drop i s) = None)"
proof (induction s)
  case Nil
  then show ?case by simp
next
  case (Cons c cs)
  have "(\<forall>i\<le>length (c # cs). match_here (drop i (c # cs)) = None) \<longleftrightarrow>
        match_here (c # cs) = None \<and> (\<forall>i\<le>length cs. match_here (drop i cs) = None)"
    by (simp add: less_Suc_eq_le [symmetric] All_less_Suc2)
  with Cons show ?case by (auto split: option.splits)
qed

text \<open>A text in which the marker token does not occur has no match.\<close>

lemma no_marker_no_match: "\<not> sublist marker s \<Longrightarrow> re_search s = None"
proof (induction s)
  case Nil
  then show ?case by (simp add: match_here_def marker_def)
next
  case (Cons c cs)
  then have "\<not> prefix marker (c # cs)" and "\<not> sublist marker cs"
    by (auto simp: sublist_Cons_right)
  with Cons.IH show ?case by (simp add: match_here_prefix)
qed

text \<open>
  Where the pattern matches at some position, the search returns the group of the match
  at the first such position.
\<close>

lemma re_search_leftmost:
  assumes "match_here (drop n s) = Some g0"
  shows "\<exists>i g. i \<le> n \<and> match_here (drop i s) = Some g
           \<and> (\<forall>j<i. match_here (drop j s) = None) \<and> re_search s = Some g"
  using assms
proof (induction s arbitrary: n)
  case Nil
  then have "match_here (drop 0 []) = Some g0 \<and> (\<forall>j<0::nat. match_here (drop j []) = None)
      \<and> re_search [] = Some g0"
    by simp
  then show ?case by blast
next
  case (Cons c cs)
  show ?case
  proof (cases "match_here (c # cs)")
    case (Some g)
    then have "match_here (drop 0 (c # cs)) = Some g
        \<and> (\<forall>j<0::nat. match_here (drop j (c # cs)) = None) \<and> re_search (c # cs) = Some g"
      by simp
    then show ?thesis by blast
  next
    case None
    with Cons.prems obtain m where n: "n = Suc m"
      by (cases n) auto
    with Cons.prems have "match_here (drop m cs) = Some g0" by simp
    from Cons.IH [OF this] obtain i g where i: "i \<le> m" "match_here (drop i cs) = Some g"
      "\<forall>j<i. match_here (drop j cs) = None" "re_search cs = Some g"
      by blast
    have "\<forall>j<Suc i. match_here (drop j (c # cs)) = None"
    proof (intro allI impI)
      fix j assume "j < Suc i"
      with i(3) None show "match_here (drop j (c # cs)) = None"
        by (cases j) auto
    qed
    with i n None have "Suc i \<le> n \<and> match_here (drop (Suc i) (c # cs)) = Some g
        \<and> (\<forall>j<Suc i. match_here (drop j (c # cs)) = None) \<and> re_search (c # cs) = Some g"
      by simp
    then show ?thesis by blast
  qed
qed

text \<open>The search passes over a prefix in which no match starts.\<close>

lemma re_search_skip:
  "\<forall>j<length pre. match_here (drop j (pre @ s)) = None \<Longrightarrow> re_search (pre @ s) = re_search s"
proof (induction pre)
  case Nil
  then show ?case by simp
next
  case (Cons c pre)
  from Cons.prems have "match_here (drop 0 ((c # pre) @ s)) = None" by blast
  then have m: "match_here (c # pre @ s) = None" by simp
  have "\<forall>j<length pre. match_here (drop j (pre @ s)) = None"
  proof (intro allI impI)
    fix j assume "j < length pre"
    then have "Suc j < length (c # pre)" by simp
    with Cons.prems have "match_here (drop (Suc j) ((c # pre) @ s)) = None" by blast
    then show "match_here (drop j (pre @ s)) = None" by simp
  qed
  with Cons.IH m show ?case by simp
qed

lemma match_here_assignment: "match_here (assignment @ suf) = Some (str ''{\"a\":1}'')"
  by (simp add: assignment_def match_here_def marker_def is_space_def terminated_def)

lemma re_search_assignment: "re_search (assignment @ suf) = Some (str ''{\"a\":1}'')"
proof -
  obtain c cs where "assignment @ suf = c # cs"
    by (simp add: assignment_def)
  with match_here_assignment [of suf] show ?thesis by simp
qed

lemmas json_loads_simps =
  json_loads_def skip_ws_def is_ws_def scan_atom_def scan_number_def scan_integer_def
  scan_fraction_def scan_exponent_def is_digit_def unescape_def hex4_def hex_digit_def
  low_surrogate_def too_many_digits_def

lemma json_loads_a1:
  "json_loads E (str ''{\"a\":1}'') =
     (if decoder_depth E = 0 then Inl RecursionError else Inr (JObj [(str ''a'', JInt 1)]))"
  by (simp add: json_loads_simps)

text \<open>
  Claim C3, as stated, fails: \<open>re.search\<close> returns the first match, so on a page with the
  assignment of \<open>{"b":2}\<close> before the assignment of \<open>{"a":1}\<close> the extraction yields
  \<open>{"b": 2}\<close>; and where the recursion limit leaves the decoder no container to enter,
  \<open>json.loads\<close> raises \<open>RecursionError\<close> on \<open>{"a":1}\<close>.
\<close>

theorem extractor_round_trip_counterexample:
  "extract_document env_timeout
     (str ''<script>__NEXT_DATA__ = {\"b\":2};</script><script>'' @ assignment @ str ''</script>'')
     = Some (Inr (JObj [(str ''b'', JInt 2)]))
   \<and> assignment = str ''__NEXT_DATA__ = {\"a\":1};''
   \<and> decoder_depth env_no_depth = 0
   \<and> extract_document env_no_depth (str ''<script>'' @ assignment @ str ''</script>'')
       = Some (Inl RecursionError)"
  by (simp add: extract_document_def assignment_def match_here_def marker_def is_space_def
      terminated_def json_loads_simps env_no_depth_def env_timeout_def)

text \<open>
  Claim C3, amended. In a text that holds the assignment \<open>__NEXT_DATA__ = {"a":1};\<close> the
  pattern has a match, at the assignment or before it, and the extraction is
  \<open>json.loads\<close> of what the first match captures. When no match starts before the
  assignment, that is \<open>{"a":1}\<close>, and the extraction yields the parsed object \<open>{"a": 1}\<close>,
  whatever comes before and after; only where the recursion limit leaves the decoder no
  container to enter does \<open>json.loads\<close> raise \<open>RecursionError\<close> instead.
\<close>

theorem extractor_round_trip:
  "(\<exists>i g. i \<le> length pre
       \<and> match_here (drop i (pre @ assignment @ suf)) = Some g
       \<and> (\<forall>j<i. match_here (drop j (pre @ assignment @ suf)) = None)
       \<and> extract_document E (pre @ assignment @ suf) = Some (json_loads E g))
   \<and> ((\<forall>j<length pre. match_here (drop j (pre @ assignment @ suf)) = None) \<longrightarrow>
        re_search (pre @ assignment @ suf) = Some (str ''{\"a\":1}'')
        \<and> extract_document E (pre @ assignment @ suf) =
            Some (if decoder_depth E = 0 then Inl RecursionError
                  else Inr (JObj [(str ''a'', JInt 1)])))"
proof (intro conjI impI)
  have "match_here (drop (length pre) (pre @ assignment @ suf)) = Some (str ''{\"a\":1}'')"
    by (simp add: match_here_assignment)
  from re_search_leftmost [OF this] obtain i g where "i \<le> length pre"
    "match_here (drop i (pre @ assignment @ suf)) = Some g"
    "\<forall>j<i. match_here (drop j (pre @ assignment @ suf)) = None"
    "re_search (pre @ assignment @ suf) = Some g"
    by blast
  then have "i \<le> length pre
       \<and> match_here (drop i (pre @ assignment @ suf)) = Some g
       \<and> (\<forall>j<i. match_here (drop j (pre @ assignment @ suf)) = None)
       \<and> extract_document E (pre @ assignment @ suf) = Some (json_loads E g)"
    by (simp add: extract_document_def)
  then show "\<exists>i g. i \<le> length pre
       \<and> match_here (drop i (pre @ assignment @ suf)) = Some g
       \<and> (\<forall>j<i. match_here (drop j (pre @ assignment @ suf)) = None)
       \<and> extract_document E (pre @ assignment @ suf) = Some (json_loads E g)"
    by blast
next
  assume "\<forall>j<length pre. match_here (drop j (pre @ assignment @ suf)) = None"
  from re_search_skip [OF this]
  show r: "re_search (pre @ assignment @ suf) = Some (str ''{\"a\":1}'')"
    by (simp add: re_search_assignment)
  show "extract_document E (pre @ assignment @ suf) =
      Some (if decoder_depth E = 0 then Inl RecursionError else Inr (JObj [(str ''a'', JInt 1)]))"
    unfolding extract_document_def r using json_loads_a1 [of E] by simp
qed

theorem extractor_round_trip_witness:
  "re_search (str ''<p>__NEXT_DATA__</p><script>'' @ assignment @ str ''</script>'')
     = Some (str ''{\"a\":1}'')
   \<and> extract_document env_timeout (str ''<p>__NEXT_DATA__</p><script>'' @ assignment @ str ''</script>'')
       = Some (Inr (JObj [(str ''a'', JInt 1)]))
   \<and> sublist marker (str ''<p>__NEXT_DATA__</p><script>'')"
proof -
  have h: "\<forall>j<length (str ''<p>__NEXT_DATA__</p><script>'').
      match_here (drop j (str ''<p>__NEXT_DATA__</p><script>'' @ assignment @ str ''</script>'')) = None"
    by (simp add: All_less_Suc2 match_here_def marker_def is_space_def assignment_def)
  have d: "decoder_depth env_timeout \<noteq> 0"
    by (simp add: env_timeout_def)
  have m: "sublist marker (str ''<p>__NEXT_DATA__</p><script>'')"
    using sublist_appendI [of marker "str ''<p>''" "str ''</p><script>''"]
    by (simp add: marker_def)
  from extractor_round_trip [of "str ''<p>__NEXT_DATA__</p><script>''" "str ''</script>''" env_timeout]
    h d m
  show ?thesis by simp
qed

text \<open>
  Claim C4. When the pattern matches at no position of the text of the response (as in
  every text without the marker token), \<open>scrap_flight_stats\<close> returns the empty list, raises
  nothing, and the last thing it logs is the warning that no JSON data was found.
\<close>

theorem no_match_is_empty_with_warning:
  assumes "http_get E (full_url E a y m d h) = Inr text"
      and "\<forall>i\<le>length text. match_here (drop i text) = None"
  shows "scrap_flight_stats E a y m d h =
           (Inr [],
            [Log INFO (FetchingData a h (full_url E a y m d h)),
             HttpGet (full_url E a y m d h),
             Log DEBUG (ResponseSnippet (take 500 text)),
             Log WARNING (NoJsonData a h (full_url E a y m d h))])"
proof -
  from assms(2) have "re_search text = None"
    by (simp add: re_search_None_iff)
  with assms(1) show ?thesis
    by (simp add: scrap_flight_stats_def extract_document_def Let_def)
qed

theorem no_match_is_empty_with_warning_witness:
  "http_get env_maintenance (full_url env_maintenance (Str (str ''DTTA'')) 2025 6 1 0) = Inr maintenance_page
   \<and> \<not> sublist marker maintenance_page
   \<and> re_search maintenance_page = None
   \<and> fst (scrap_flight_stats env_maintenance (Str (str ''DTTA'')) 2025 6 1 0) = Inr []
   \<and> last (snd (scrap_flight_stats env_maintenance (Str (str ''DTTA'')) 2025 6 1 0)) =
       Log WARNING (NoJsonData (Str (str ''DTTA'')) 0
         (str ''https://site.test/arrivals/DTTA/?year=2025&month=6&date=1&hour=0''))"
proof -
  have g: "http_get env_maintenance (full_url env_maintenance (Str (str ''DTTA'')) 2025 6 1 0) = Inr maintenance_page"
    by (simp add: env_maintenance_def)
  have n: "\<not> sublist marker maintenance_page"
    by (simp add: maintenance_page_def marker_def sublist_Cons_right)
  then have m: "\<forall>i\<le>length maintenance_page. match_here (drop i maintenance_page) = None"
    using no_marker_no_match re_search_None_iff by blast
  have u: "full_url env_maintenance (Str (str ''DTTA'')) 2025 6 1 0 =
      str ''https://site.test/arrivals/DTTA/?year=2025&month=6&date=1&hour=0''"
    by (simp add: full_url_def py_str_int_def env_maintenance_def env_timeout_def)
  from n have r: "re_search maintenance_page = None"
    by (rule no_marker_no_match)
  from g n r u no_match_is_empty_with_warning [OF g m] show ?thesis by simp
qed

section \<open>The flattener\<close>

lemma and_then_Inr [simp]: "and_then (Inr x) f = f x"
  by (simp add: and_then_def)

lemma and_then_Inl [simp]: "and_then (Inl e) f = Inl e"
  by (simp add: and_then_def)

lemma getitem_JObj [simp]:
  "getitem (JObj kvs) k = (case map_of kvs k of None \<Rightarrow> Inl (KeyError k) | Some v \<Rightarrow> Inr v)"
  by (simp add: getitem_def)

lemma is_dictE: "is_dict d \<Longrightarrow> (\<And>kvs. d = JObj kvs \<Longrightarrow> P) \<Longrightarrow> P"
  by (cases d) (simp_all add: is_dict_def)

lemma lookup_path_append:
  "lookup_path d (p @ q) = (case lookup_path d p of None \<Rightarrow> None | Some v \<Rightarrow> lookup_path v q)"
  by (induction d p rule: lookup_path.induct) (auto split: json.splits option.splits)

lemma first_missing_append:
  "first_missing d (p @ q) =
     (case first_missing d p of
        Some k \<Rightarrow> Some k
      | None \<Rightarrow> (case lookup_path d p of None \<Rightarrow> None | Some v \<Rightarrow> first_missing v q))"
  by (induction d p rule: first_missing.induct) (auto split: json.splits option.splits)

text \<open>
  A chain of subscriptions raises \<open>KeyError\<close> with the first missing key, \<open>TypeError\<close> at a
  value that is not a dict, and returns what is at the end of the path otherwise.
\<close>

lemma walk_cases:
  "walk d p =
     (case first_missing d p of
        Some k \<Rightarrow> Inl (KeyError k)
      | None \<Rightarrow> (case lookup_path d p of Some v \<Rightarrow> Inr v | None \<Rightarrow> Inl TypeError))"
  by (induction d p rule: walk.induct) (auto simp: getitem_def split: json.splits option.splits)

lemma found_not_missing: "lookup_path d p = Some v \<Longrightarrow> first_missing d p = None"
  by (induction d p rule: lookup_path.induct) (auto split: json.splits option.splits)

lemma walk_found: "lookup_path d p = Some v \<Longrightarrow> walk d p = Inr v"
  by (simp add: walk_cases found_not_missing)

lemma lookup_path_appendD:
  "lookup_path d (p @ q) = Some v \<Longrightarrow> \<exists>u. lookup_path d p = Some u \<and> lookup_path u q = Some v"
  by (auto simp: lookup_path_append split: option.splits)

lemma first_missing_under:
  "lookup_path d p = Some u \<Longrightarrow> first_missing d (p @ q) = first_missing u q"
  by (simp add: first_missing_append found_not_missing)

lemma lookup_path_under:
  "lookup_path d p = Some u \<Longrightarrow> lookup_path d (p @ q) = lookup_path u q"
  by (simp add: lookup_path_append)

lemma header_path_split:
  "header_path @ p = tracker_path @ ([str ''route'', str ''header''] @ p)"
  by (simp add: header_path_def)

lemma flatten_walk:
  "flatten doc =
     and_then (walk doc tracker_path) (\<lambda>ft.
     and_then (walk ft [str ''route'', str ''flights'']) (\<lambda>flights.
     and_then (iter flights) (\<lambda>items. enrich_all ft items)))"
  by (simp add: flatten_def tracker_path_def and_then_def split: sum.splits)

lemma enrich_walk:
  "enrich ft flight =
     and_then (walk ft [str ''route'', str ''header'']) (\<lambda>header. copy_header header flight)"
  by (simp add: enrich_def and_then_def split: sum.splits)

lemma copy_header_ok:
  assumes "lookup_path hdr [str ''date''] = Some d"
      and "lookup_path hdr [str ''arrivalAirport'', str ''iata''] = Some i"
      and "lookup_path hdr [str ''arrivalAirport'', str ''icao''] = Some c"
      and "lookup_path hdr [str ''arrivalAirport'', str ''name''] = Some n"
  shows "copy_header hdr (JObj f) = Inr (with_header d i c n f)"
proof -
  from assms(1) obtain kvs where hdr: "hdr = JObj kvs" and d: "map_of kvs (str ''date'') = Some d"
    by (cases hdr) (auto split: option.splits)
  from assms(2) hdr obtain a where a: "map_of kvs (str ''arrivalAirport'') = Some a"
    by (auto split: option.splits)
  from assms(2) hdr a obtain akvs where akvs: "a = JObj akvs"
    and i: "map_of akvs (str ''iata'') = Some i"
    by (cases a) (auto split: option.splits)
  from assms(3,4) hdr a akvs have c: "map_of akvs (str ''icao'') = Some c"
    and n: "map_of akvs (str ''name'') = Some n"
    by (auto split: option.splits)
  show ?thesis
    unfolding hdr copy_header_def using d a i c n
    by (simp add: setitem_def with_header_def akvs)
qed

lemma copy_header_KeyError:
  assumes "first_some (map (first_missing hdr) header_fields) = Some k"
  shows "copy_header hdr (JObj f) = Inl (KeyError k)"
proof (cases "is_dict hdr")
  case False
  with assms show ?thesis
    by (cases hdr) (simp_all add: is_dict_def header_fields_def)
next
  case True
  then obtain kvs where hdr: "hdr = JObj kvs" by (rule is_dictE)
  show ?thesis
  proof (cases "map_of kvs (str ''date'')")
    case None
    with assms hdr show ?thesis
      by (simp add: header_fields_def copy_header_def)
  next
    case d: (Some d)
    show ?thesis
    proof (cases "map_of kvs (str ''arrivalAirport'')")
      case None
      with assms hdr d show ?thesis
        by (simp add: header_fields_def copy_header_def setitem_def)
    next
      case a: (Some a)
      show ?thesis
      proof (cases "is_dict a")
        case False
        with assms hdr d a show ?thesis
          by (cases a) (simp_all add: is_dict_def header_fields_def)
      next
        case True
        then obtain akvs where akvs: "a = JObj akvs" by (rule is_dictE)
        with assms hdr d a show ?thesis
          by (auto simp: header_fields_def copy_header_def setitem_def split: option.splits)
      qed
    qed
  qed
qed

lemma enrich_all_ok:
  assumes "\<And>f. enrich ft (JObj f) = Inr (g f)" and "\<forall>x\<in>set fs. is_dict x"
  shows "enrich_all ft fs = Inr (map (\<lambda>x. case x of JObj f \<Rightarrow> g f | _ \<Rightarrow> []) fs)"
  using assms(2)
proof (induction fs)
  case Nil
  then show ?case by simp
next
  case (Cons x fs)
  then obtain f where "x = JObj f" by (auto elim: is_dictE)
  with Cons assms(1) show ?case by simp
qed

lemma flatten_KeyError_flights:
  assumes "first_missing doc flights_path = Some k"
  shows "flatten doc = Inl (KeyError k)"
proof (cases "first_missing doc tracker_path")
  case (Some k')
  with assms have "k' = k" by (simp add: flights_path_def first_missing_append)
  with Some show ?thesis by (simp add: flatten_walk walk_cases)
next
  case None
  with assms obtain ft where ft: "lookup_path doc tracker_path = Some ft"
    and m: "first_missing ft [str ''route'', str ''flights''] = Some k"
    by (auto simp: flights_path_def first_missing_append split: option.splits)
  from m have "walk ft [str ''route'', str ''flights''] = Inl (KeyError k)"
    by (simp only: walk_cases option.case)
  with ft show ?thesis by (simp add: flatten_walk walk_found)
qed

text \<open>Without the flight list, and without a missing key on the way to it, a \<open>TypeError\<close>.\<close>

lemma flatten_blocked:
  assumes "first_missing doc flights_path = None" and "lookup_path doc flights_path = None"
  shows "flatten doc = Inl TypeError"
proof (cases "lookup_path doc tracker_path")
  case None
  moreover from assms(1) have "first_missing doc tracker_path = None"
    by (auto simp: flights_path_def first_missing_append split: option.splits)
  ultimately show ?thesis by (simp add: flatten_walk walk_cases)
next
  case (Some ft)
  with assms have "first_missing ft [str ''route'', str ''flights''] = None"
    and "lookup_path ft [str ''route'', str ''flights''] = None"
    by (simp_all add: flights_path_def first_missing_under lookup_path_under)
  then have "walk ft [str ''route'', str ''flights''] = Inl TypeError"
    by (simp only: walk_cases option.case)
  with Some show ?thesis by (simp add: flatten_walk walk_found)
qed

text \<open>With the flight list, the flattener is the loop over what the list iterates to.\<close>

lemma flatten_found:
  assumes "lookup_path doc flights_path = Some fl"
  obtains ft where "lookup_path doc tracker_path = Some ft"
    and "lookup_path ft [str ''route'', str ''flights''] = Some fl"
    and "flatten doc = and_then (iter fl) (enrich_all ft)"
proof -
  from assms obtain ft where ft: "lookup_path doc tracker_path = Some ft"
    and fl: "lookup_path ft [str ''route'', str ''flights''] = Some fl"
    unfolding flights_path_def by (blast dest: lookup_path_appendD)
  have "walk ft [str ''route'', str ''flights''] = Inr fl"
    by (rule walk_found [OF fl])
  then have "flatten doc = and_then (iter fl) (enrich_all ft)"
    by (simp add: flatten_walk walk_found [OF ft] del: walk.simps)
  with ft fl that show ?thesis by blast
qed

text \<open>
  The loop body on one item, when a key is missing on the way to a header field: the
  \<open>KeyError\<close> of the first such key, unless the header has its \<open>date\<close> and the item is no
  dict, for then the first assignment raises \<open>TypeError\<close> before the next key is looked up.
\<close>

lemma copy_header_missing:
  assumes "first_some (map (first_missing hdr) header_fields) = Some k"
  shows "copy_header hdr x =
           (if is_dict x \<or> first_missing hdr [str ''date''] = Some k then Inl (KeyError k)
            else Inl TypeError)"
proof (cases "is_dict x")
  case True
  then obtain f where "x = JObj f" by (rule is_dictE)
  with True copy_header_KeyError [OF assms, of f] show ?thesis by simp
next
  case False
  show ?thesis
  proof (cases "is_dict hdr")
    case h: False
    with assms show ?thesis
      by (cases hdr) (simp_all add: is_dict_def header_fields_def)
  next
    case True
    then obtain kvs where hdr: "hdr = JObj kvs" by (rule is_dictE)
    show ?thesis
    proof (cases "map_of kvs (str ''date'')")
      case None
      with assms hdr show ?thesis
        by (simp add: header_fields_def copy_header_def)
    next
      case (Some d)
      with False hdr show ?thesis
        by (cases x) (simp_all add: copy_header_def setitem_def is_dict_def)
    qed
  qed
qed

text \<open>With the four header fields on their paths, the loop body raises no \<open>KeyError\<close>.\<close>

lemma copy_header_complete:
  assumes "first_some (map (first_missing hdr) header_fields) = None"
  shows "copy_header hdr x \<noteq> Inl (KeyError k)"
proof (cases "is_dict hdr")
  case False
  then show ?thesis
    by (cases hdr) (simp_all add: is_dict_def copy_header_def getitem_def)
next
  case True
  then obtain kvs where hdr: "hdr = JObj kvs" by (rule is_dictE)
  from assms hdr obtain d where d: "map_of kvs (str ''date'') = Some d"
    by (cases "map_of kvs (str ''date'')") (simp_all add: header_fields_def)
  show ?thesis
  proof (cases "is_dict x")
    case False
    with hdr d show ?thesis
      by (cases x) (simp_all add: copy_header_def setitem_def is_dict_def)
  next
    case x: True
    then obtain f where f: "x = JObj f" by (rule is_dictE)
    from assms hdr d obtain a where a: "map_of kvs (str ''arrivalAirport'') = Some a"
      by (cases "map_of kvs (str ''arrivalAirport'')") (simp_all add: header_fields_def)
    show ?thesis
    proof (cases "is_dict a")
      case False
      with hdr d f a show ?thesis
        by (cases a) (simp_all add: copy_header_def setitem_def is_dict_def getitem_def)
    next
      case True
      then obtain akvs where akvs: "a = JObj akvs" by (rule is_dictE)
      with assms hdr d a f show ?thesis
        by (auto simp: header_fields_def copy_header_def setitem_def split: option.splits)
    qed
  qed
qed

text \<open>
  The flight list is under \<open>route\<close>, so the lookup of the header can only miss the key
  \<open>header\<close>; with the header found, the loop body is the four assignments.
\<close>

lemma enrich_header_cases:
  assumes "lookup_path ft [str ''route'', str ''flights''] = Some fl"
  shows "(\<forall>x. enrich ft x = Inl (KeyError (str ''header'')))
           \<and> (\<forall>p. first_missing ft ([str ''route'', str ''header''] @ p) = Some (str ''header''))
         \<or> (\<exists>hdr. (\<forall>x. enrich ft x = copy_header hdr x)
              \<and> (\<forall>p. first_missing ft ([str ''route'', str ''header''] @ p) = first_missing hdr p))"
proof -
  from assms obtain kvs where ft: "ft = JObj kvs"
    by (cases ft) simp_all
  with assms obtain route where route: "map_of kvs (str ''route'') = Some route"
    by (cases "map_of kvs (str ''route'')") simp_all
  with assms ft obtain rkvs where rkvs: "route = JObj rkvs"
    by (cases route) simp_all
  show ?thesis
  proof (cases "map_of rkvs (str ''header'')")
    case None
    with ft route rkvs show ?thesis
      by (simp add: enrich_def)
  next
    case (Some hdr)
    with ft route rkvs have "(\<forall>x. enrich ft x = copy_header hdr x)
        \<and> (\<forall>p. first_missing ft ([str ''route'', str ''header''] @ p) = first_missing hdr p)"
      by (simp add: enrich_def)
    then show ?thesis by blast
  qed
qed

lemma enrich_all_no_KeyError:
  "\<forall>x. enrich ft x \<noteq> Inl (KeyError k) \<Longrightarrow> enrich_all ft xs \<noteq> Inl (KeyError k)"
  by (induction xs) (auto simp: and_then_def split: sum.splits)

lemma iter_TypeError: "iter fl = Inl e \<Longrightarrow> e = TypeError"
  by (cases fl) (simp_all add: iter_def)

text \<open>
  When the flattener raises \<open>KeyError\<close>, and with which key: a key is missing on the way
  to the flight list; or the loop has a first item and a key is missing on the way to a
  header field, the key being \<open>header\<close> or \<open>date\<close> unless the item is a dict.
\<close>

lemma flatten_KeyError_iff:
  "flatten doc = Inl (KeyError k) \<longleftrightarrow>
     (first_missing doc flights_path = Some k
      \<or> (\<exists>fl x rest. lookup_path doc flights_path = Some fl \<and> iter fl = Inr (x # rest)
           \<and> header_missing doc = Some k
           \<and> (is_dict x \<or> first_missing doc (header_path @ [str ''date'']) = Some k)))"
  (is "?L \<longleftrightarrow> ?A \<or> ?B")
proof (cases "first_missing doc flights_path")
  case (Some k')
  then have "lookup_path doc flights_path = None"
    by (cases "lookup_path doc flights_path") (auto dest: found_not_missing)
  then have "\<not> ?B" by simp
  with Some flatten_KeyError_flights [OF Some] show ?thesis by auto
next
  case None
  show ?thesis
  proof (cases "lookup_path doc flights_path")
    case n: None
    with None flatten_blocked [OF None n] show ?thesis by simp
  next
    case (Some fl)
    from flatten_found [OF Some] obtain ft where ft: "lookup_path doc tracker_path = Some ft"
      and fl: "lookup_path ft [str ''route'', str ''flights''] = Some fl"
      and fd: "flatten doc = and_then (iter fl) (enrich_all ft)"
      by blast
    have under: "first_missing doc (header_path @ p)
        = first_missing ft ([str ''route'', str ''header''] @ p)" for p
      unfolding header_path_split by (rule first_missing_under [OF ft])
    show ?thesis
    proof (cases "iter fl")
      case (Inl e)
      with fd iter_TypeError [OF Inl] None Some show ?thesis by simp
    next
      case (Inr items)
      show ?thesis
      proof (cases items)
        case Nil
        with fd Inr None Some show ?thesis by simp
      next
        case (Cons x rest)
        have B: "?B \<longleftrightarrow> header_missing doc = Some k
            \<and> (is_dict x \<or> first_missing doc (header_path @ [str ''date'']) = Some k)"
          using Some Inr Cons by simp
        from enrich_header_cases [OF fl] show ?thesis
        proof (elim disjE conjE exE)
          assume e: "\<forall>x. enrich ft x = Inl (KeyError (str ''header''))"
            and m: "\<forall>p. first_missing ft ([str ''route'', str ''header''] @ p) = Some (str ''header'')"
          from m have "header_missing doc = Some (str ''header'')"
            and "first_missing doc (header_path @ [str ''date'']) = Some (str ''header'')"
            by (simp_all add: header_missing_def header_fields_def under)
          with e fd Inr Cons None B show ?thesis by auto
        next
          fix hdr
          assume e: "\<forall>x. enrich ft x = copy_header hdr x"
            and m: "\<forall>p. first_missing ft ([str ''route'', str ''header''] @ p) = first_missing hdr p"
          from m have hm: "header_missing doc = first_some (map (first_missing hdr) header_fields)"
            and dt: "first_missing doc (header_path @ [str ''date'']) = first_missing hdr [str ''date'']"
            by (simp_all add: header_missing_def under)
          show ?thesis
          proof (cases "header_missing doc")
            case hn: None
            with hm have "\<forall>y. enrich ft y \<noteq> Inl (KeyError k)"
              using e copy_header_complete [of hdr] by simp
            then have "enrich_all ft (x # rest) \<noteq> Inl (KeyError k)"
              by (rule enrich_all_no_KeyError)
            with fd Inr Cons None B hn show ?thesis by simp
          next
            case (Some k')
            with hm have "first_some (map (first_missing hdr) header_fields) = Some k'" by simp
            from copy_header_missing [OF this, of x] e dt
            have "enrich ft x =
                (if is_dict x \<or> first_missing doc (header_path @ [str ''date'']) = Some k'
                 then Inl (KeyError k') else Inl TypeError)"
              by simp
            with fd Inr Cons None B Some show ?thesis by auto
          qed
        qed
      qed
    qed
  qed
qed

lemma flatten_logged_KeyError:
  "flatten_logged a h doc = (Inr [], [Log ERROR (KeyMissing a h (KeyError k))])
     \<longleftrightarrow> flatten doc = Inl (KeyError k)"
proof (cases "flatten doc")
  case (Inr flights)
  then show ?thesis by (simp add: flatten_logged_def)
next
  case (Inl e)
  then show ?thesis by (cases e) (simp_all add: flatten_logged_def)
qed

text \<open>
  Claim C2, as stated, fails in two ways. In \<open>doc_no_date_no_flights\<close> the header has no
  \<open>date\<close> and the flight list is empty: the loop body never runs, and the flattener logs
  the count of flights at INFO, not an ERROR that names the key. In \<open>doc_int_entry\<close> the
  header has no \<open>arrivalAirport\<close> and the flight list holds a number: the assignment of
  the date to the number raises \<open>TypeError\<close>, which the handler does not take, before
  the key is looked up.
\<close>

theorem missing_key_counterexample:
  "first_missing doc_no_date_no_flights (header_path @ [str ''date'']) = Some (str ''date'')
   \<and> flatten_logged (Str (str ''DTTA'')) 6 doc_no_date_no_flights
       = (Inr [], [Log INFO (FlightsFound 0 (Str (str ''DTTA'')) 6)])
   \<and> first_missing doc_int_entry (header_path @ [str ''arrivalAirport'', str ''iata''])
       = Some (str ''arrivalAirport'')
   \<and> flatten_logged (Str (str ''DTTA'')) 6 doc_int_entry = (Inl TypeError, [])"
  by (simp add: doc_no_date_no_flights_def doc_int_entry_def document_def header_no_date_def
      header_no_airport_def arrival_airport_def header_path_def tracker_path_def flatten_logged_def
      flatten_def iter_def enrich_def copy_header_def setitem_def)

text \<open>
  Claim C2, amended. The flattener returns the empty list, never a part of the records,
  with one ERROR that carries the \<open>KeyError\<close> of the key \<open>k\<close>, in these cases and in no
  other: \<open>k\<close> is the first key missing on the way to the flight list; or the flight list
  is there, the loop over it has a first item, and \<open>k\<close> is the first key missing on the
  way to the four header fields, where \<open>k\<close> is \<open>header\<close> or \<open>date\<close> or else the item is a
  dict.
\<close>

theorem missing_key_is_all_or_nothing:
  "flatten_logged a h doc = (Inr [], [Log ERROR (KeyMissing a h (KeyError k))]) \<longleftrightarrow>
     (first_missing doc flights_path = Some k
      \<or> (\<exists>fl x rest. lookup_path doc flights_path = Some fl \<and> iter fl = Inr (x # rest)
           \<and> header_missing doc = Some k
           \<and> (is_dict x \<or> first_missing doc (header_path @ [str ''date'']) = Some k)))"
  unfolding flatten_logged_KeyError by (rule flatten_KeyError_iff)

theorem missing_key_is_all_or_nothing_witness:
  "lookup_path doc_no_date flights_path = Some (JArr [JObj flight_tu723, JObj flight_af1084])
   \<and> header_missing doc_no_date = Some (str ''date'')
   \<and> flatten_logged (Str (str ''DTTA'')) 6 doc_no_date
       = (Inr [], [Log ERROR (KeyMissing (Str (str ''DTTA'')) 6 (KeyError (str ''date'')))])
   \<and> lookup_path doc_int_no_date flights_path = Some (JArr [JInt 1])
   \<and> first_missing doc_int_no_date (header_path @ [str ''date'']) = Some (str ''date'')
   \<and> flatten_logged (Str (str ''DTTA'')) 6 doc_int_no_date
       = (Inr [], [Log ERROR (KeyMissing (Str (str ''DTTA'')) 6 (KeyError (str ''date'')))])
   \<and> first_missing doc_no_route flights_path = Some (str ''route'')
   \<and> flatten_logged (Str (str ''DTTA'')) 6 doc_no_route
       = (Inr [], [Log ERROR (KeyMissing (Str (str ''DTTA'')) 6 (KeyError (str ''route'')))])"
proof -
  note defs = document_def header_no_date_def arrival_airport_def header_missing_def
    header_fields_def header_path_def flights_path_def tracker_path_def
  have l: "lookup_path doc_no_date flights_path = Some (JArr [JObj flight_tu723, JObj flight_af1084])"
    by (simp add: doc_no_date_def defs)
  have m: "header_missing doc_no_date = Some (str ''date'')"
    by (simp add: doc_no_date_def defs)
  have i: "iter (JArr [JObj flight_tu723, JObj flight_af1084]) = Inr [JObj flight_tu723, JObj flight_af1084]"
    by (simp add: iter_def)
  have d: "is_dict (JObj flight_tu723)"
    by (simp add: is_dict_def)
  from l m i d have 1: "flatten_logged (Str (str ''DTTA'')) 6 doc_no_date
       = (Inr [], [Log ERROR (KeyMissing (Str (str ''DTTA'')) 6 (KeyError (str ''date'')))])"
    unfolding missing_key_is_all_or_nothing by blast
  have l2: "lookup_path doc_int_no_date flights_path = Some (JArr [JInt 1])"
    by (simp add: doc_int_no_date_def defs)
  have m2: "header_missing doc_int_no_date = Some (str ''date'')"
    by (simp add: doc_int_no_date_def defs)
  have f2: "first_missing doc_int_no_date (header_path @ [str ''date'']) = Some (str ''date'')"
    by (simp add: doc_int_no_date_def defs)
  have i2: "iter (JArr [JInt 1]) = Inr [JInt 1]"
    by (simp add: iter_def)
  from l2 m2 f2 i2 have 2: "flatten_logged (Str (str ''DTTA'')) 6 doc_int_no_date
       = (Inr [], [Log ERROR (KeyMissing (Str (str ''DTTA'')) 6 (KeyError (str ''date'')))])"
    unfolding missing_key_is_all_or_nothing by blast
  have r: "first_missing doc_no_route flights_path = Some (str ''route'')"
    by (simp add: doc_no_route_def defs)
  then have 3: "flatten_logged (Str (str ''DTTA'')) 6 doc_no_route
       = (Inr [], [Log ERROR (KeyMissing (Str (str ''DTTA'')) 6 (KeyError (str ''route'')))])"
    unfolding missing_key_is_all_or_nothing by blast
  from l m 1 l2 f2 2 r 3 show ?thesis by blast
qed

text \<open>
  Claim C5, as stated, fails: the assignment \<open>flight['date'] = header['date']\<close> overwrites a
  field \<open>date\<close> that the flight entry has of its own.
\<close>

theorem enrichment_keeps_own_fields_counterexample:
  "lookup_path doc_own_date flights_path = Some (JArr [JObj [(str ''date'', JStr (str ''1999-12-31''))]])
   \<and> flatten doc_own_date =
       Inr [[(str ''date'', JStr (str ''2025-06-01'')), (str ''iata'', JStr (str ''TUN'')),
             (str ''icao'', JStr (str ''DTTA'')), (str ''airport_name'', JStr (str ''Tunis-Carthage''))]]"
  by (simp add: doc_own_date_def document_def header_tunis_def arrival_airport_def
      flights_path_def tracker_path_def flatten_def iter_def enrich_def copy_header_def setitem_def)

text \<open>
  Claim C5, amended. When the flight list is a list of objects and the four header
  fields are there, the flattener returns one record for each flight entry, in order;
  the record has the header's date, IATA code, ICAO code and airport name under the keys
  \<open>date\<close>, \<open>iata\<close>, \<open>icao\<close> and \<open>airport_name\<close>, and under every other key what the flight
  entry has there.
\<close>

theorem flatten_enriches:
  assumes fl: "lookup_path doc flights_path = Some (JArr fs)"
      and objs: "\<forall>x\<in>set fs. is_dict x"
      and d: "lookup_path doc (header_path @ [str ''date'']) = Some d"
      and i: "lookup_path doc (header_path @ [str ''arrivalAirport'', str ''iata'']) = Some i"
      and c: "lookup_path doc (header_path @ [str ''arrivalAirport'', str ''icao'']) = Some c"
      and n: "lookup_path doc (header_path @ [str ''arrivalAirport'', str ''name'']) = Some n"
  shows "\<exists>recs. flatten doc = Inr recs \<and> length recs = length fs \<and>
           (\<forall>j<length fs. \<exists>f. fs ! j = JObj f \<and>
              map_of (recs ! j) =
                (map_of f)(str ''date'' \<mapsto> d, str ''iata'' \<mapsto> i,
                           str ''icao'' \<mapsto> c, str ''airport_name'' \<mapsto> n))"
proof -
  from fl obtain ft where ft: "lookup_path doc tracker_path = Some ft"
    and fl': "lookup_path ft [str ''route'', str ''flights''] = Some (JArr fs)"
    unfolding flights_path_def by (blast dest: lookup_path_appendD)
  have under: "lookup_path doc (header_path @ p)
      = lookup_path ft ([str ''route'', str ''header''] @ p)" for p
    unfolding header_path_split by (rule lookup_path_under [OF ft])
  from d obtain hdr where hdr: "lookup_path ft [str ''route'', str ''header''] = Some hdr"
    unfolding under by (blast dest: lookup_path_appendD)
  have "lookup_path doc (header_path @ p) = lookup_path hdr p" for p
    unfolding under by (rule lookup_path_under [OF hdr])
  with d i c n have
    "lookup_path hdr [str ''date''] = Some d"
    "lookup_path hdr [str ''arrivalAirport'', str ''iata''] = Some i"
    "lookup_path hdr [str ''arrivalAirport'', str ''icao''] = Some c"
    "lookup_path hdr [str ''arrivalAirport'', str ''name''] = Some n"
    by simp_all
  then have "copy_header hdr (JObj f) = Inr (with_header d i c n f)" for f
    by (rule copy_header_ok)
  then have e: "enrich ft (JObj f) = Inr (with_header d i c n f)" for f
    by (simp only: enrich_walk walk_found [OF hdr] and_then_Inr)
  let ?recs = "map (\<lambda>x. case x of JObj f \<Rightarrow> with_header d i c n f | _ \<Rightarrow> []) fs"
  have w: "walk ft [str ''route'', str ''flights''] = Inr (JArr fs)"
    by (rule walk_found [OF fl'])
  have "flatten doc = Inr ?recs"
    using w enrich_all_ok [of ft "with_header d i c n", OF e objs]
    by (simp add: flatten_walk walk_found [OF ft] iter_def del: walk.simps)
  moreover have "\<exists>f. fs ! j = JObj f \<and>
      map_of (?recs ! j) =
        (map_of f)(str ''date'' \<mapsto> d, str ''iata'' \<mapsto> i,
                   str ''icao'' \<mapsto> c, str ''airport_name'' \<mapsto> n)"
    if "j < length fs" for j
  proof -
    from that objs have "is_dict (fs ! j)" by simp
    then obtain f where f: "fs ! j = JObj f" by (rule is_dictE)
    with that show ?thesis
      by (simp add: with_header_def update_conv')
  qed
  ultimately show ?thesis by auto
qed

theorem flatten_enriches_witness:
  "lookup_path doc_two_flights flights_path = Some (JArr [JObj flight_tu723, JObj flight_af1084])
   \<and> list_all is_dict [JObj flight_tu723, JObj flight_af1084]
   \<and> lookup_path doc_two_flights (header_path @ [str ''date'']) = Some (JStr (str ''2025-06-01''))
   \<and> lookup_path doc_two_flights (header_path @ [str ''arrivalAirport'', str ''iata''])
       = Some (JStr (str ''TUN''))
   \<and> lookup_path doc_two_flights (header_path @ [str ''arrivalAirport'', str ''icao''])
       = Some (JStr (str ''DTTA''))
   \<and> lookup_path doc_two_flights (header_path @ [str ''arrivalAirport'', str ''name''])
       = Some (JStr (str ''Tunis-Carthage''))
   \<and> (\<exists>recs. flatten doc_two_flights = Inr recs \<and> length recs = length [JObj flight_tu723, JObj flight_af1084] \<and>
        (\<forall>j<length [JObj flight_tu723, JObj flight_af1084]. \<exists>f. [JObj flight_tu723, JObj flight_af1084] ! j = JObj f \<and>
           map_of (recs ! j) =
             (map_of f)(str ''date'' \<mapsto> JStr (str ''2025-06-01''), str ''iata'' \<mapsto> JStr (str ''TUN''),
                        str ''icao'' \<mapsto> JStr (str ''DTTA''),
                        str ''airport_name'' \<mapsto> JStr (str ''Tunis-Carthage''))))
   \<and> flatten doc_two_flights =
       Inr [flight_tu723 @ [(str ''date'', JStr (str ''2025-06-01'')), (str ''iata'', JStr (str ''TUN'')),
                            (str ''icao'', JStr (str ''DTTA'')),
                            (str ''airport_name'', JStr (str ''Tunis-Carthage''))],
            flight_af1084 @ [(str ''date'', JStr (str ''2025-06-01'')), (str ''iata'', JStr (str ''TUN'')),
                             (str ''icao'', JStr (str ''DTTA'')),
                             (str ''airport_name'', JStr (str ''Tunis-Carthage''))]]"
proof -
  note defs = doc_two_flights_def document_def header_tunis_def arrival_airport_def
    flights_path_def header_path_def tracker_path_def
  have fl: "lookup_path doc_two_flights flights_path = Some (JArr [JObj flight_tu723, JObj flight_af1084])"
    by (simp add: defs)
  have objs: "\<forall>x\<in>set [JObj flight_tu723, JObj flight_af1084]. is_dict x"
    by (simp add: is_dict_def)
  have d: "lookup_path doc_two_flights (header_path @ [str ''date'']) = Some (JStr (str ''2025-06-01''))"
    by (simp add: defs)
  have i: "lookup_path doc_two_flights (header_path @ [str ''arrivalAirport'', str ''iata''])
       = Some (JStr (str ''TUN''))"
    by (simp add: defs)
  have c: "lookup_path doc_two_flights (header_path @ [str ''arrivalAirport'', str ''icao''])
       = Some (JStr (str ''DTTA''))"
    by (simp add: defs)
  have n: "lookup_path doc_two_flights (header_path @ [str ''arrivalAirport'', str ''name''])
       = Some (JStr (str ''Tunis-Carthage''))"
    by (simp add: defs)
  have v: "flatten doc_two_flights =
       Inr [flight_tu723 @ [(str ''date'', JStr (str ''2025-06-01'')), (str ''iata'', JStr (str ''TUN'')),
                            (str ''icao'', JStr (str ''DTTA'')),
                            (str ''airport_name'', JStr (str ''Tunis-Carthage''))],
            flight_af1084 @ [(str ''date'', JStr (str ''2025-06-01'')), (str ''iata'', JStr (str ''TUN'')),
                             (str ''icao'', JStr (str ''DTTA'')),
                             (str ''airport_name'', JStr (str ''Tunis-Carthage''))]]"
    by (simp add: defs flatten_def iter_def enrich_def copy_header_def setitem_def
        flight_tu723_def flight_af1084_def)
  have "\<exists>recs. flatten doc_two_flights = Inr recs \<and> length recs = length [JObj flight_tu723, JObj flight_af1084] \<and>
        (\<forall>j<length [JObj flight_tu723, JObj flight_af1084]. \<exists>f. [JObj flight_tu723, JObj flight_af1084] ! j = JObj f \<and>
           map_of (recs ! j) =
             (map_of f)(str ''date'' \<mapsto> JStr (str ''2025-06-01''), str ''iata'' \<mapsto> JStr (str ''TUN''),
                        str ''icao'' \<mapsto> JStr (str ''DTTA''),
                        str ''airport_name'' \<mapsto> JStr (str ''Tunis-Carthage'')))"
    by (rule flatten_enriches [OF fl objs d i c n])
  moreover have "list_all is_dict [JObj flight_tu723, JObj flight_af1084]"
    by (simp add: is_dict_def)
  ultimately show ?thesis using fl d i c n v by blast
qed

section \<open>The column names\<close>

lemma keys_update: "fst ` set (AList.update k v al) = insert k (fst ` set al)"
  by (simp add: dom_update)

text \<open>The keys of a flattened dict are the names built along the paths to its leaves.\<close>

lemma keys_normalise:
  "fst ` set (normalise_json v ks nd)
     = fst ` set nd \<union> (\<lambda>p. foldl new_key ks p) ` set (leaf_paths v)"
  "fst ` set (normalise_items kvs ks nd)
     = fst ` set nd \<union> (\<lambda>p. foldl new_key ks p) ` set (leaf_paths_items kvs)"
proof (induction v ks nd and kvs ks nd rule: normalise_json_normalise_items.induct)
qed (auto simp: keys_update image_Un image_image)

lemma keys_fold_update:
  "fst ` set (fold (\<lambda>kv d. AList.update (fst kv) (snd kv) d) xs d) = fst ` set d \<union> fst ` set xs"
  by (induction xs arbitrary: d) (auto simp: keys_update)

lemma keys_normalise_json_ordered:
  "fst ` set (normalise_json_ordered r) = (\<lambda>p. foldl new_key [] p) ` set (record_paths r)"
  by (auto simp: normalise_json_ordered_def Let_def keys_fold_update keys_normalise record_paths_def
      new_key_def image_Un image_image)

lemma set_first_seen [simp]: "set (first_seen xs) = set xs"
  by (simp add: first_seen_def)

lemma set_columns_json_normalize:
  "set (columns (json_normalize fs))
     = (\<Union>r\<in>set fs. (\<lambda>p. foldl new_key [] p) ` set (record_paths r))"
  using keys_normalise_json_ordered
  by (auto simp: json_normalize_def DataFrame_def Let_def image_iff)

lemma foldl_new_key: "ks \<noteq> [] \<Longrightarrow> foldl new_key ks p = ks @ concat (map ((#) dot) p)"
  by (induction p arbitrary: ks) (simp_all add: new_key_def)

lemma join_keys_Cons: "join_keys sep (k # p) = k @ concat (map ((#) sep) p)"
  by (induction p arbitrary: k) simp_all

lemma str_replace_append [simp]:
  "str_replace a b (xs @ ys) = str_replace a b xs @ str_replace a b ys"
  by (simp add: str_replace_def)

lemma str_replace_concat:
  "str_replace a b (concat (map ((#) a) p)) = concat (map ((#) b \<circ> str_replace a b) p)"
  by (induction p) (simp_all add: str_replace_def)

text \<open>
  Replacing the dots of the name of a path gives the keys of the path, each with its
  own dots replaced, joined by underscores.
\<close>

lemma renamed_path:
  assumes "[] \<notin> set p"
  shows "str_replace dot underscore (foldl new_key [] p)
       = join_keys underscore (map (str_replace dot underscore) p)"
proof (cases p)
  case Nil
  then show ?thesis by (simp add: str_replace_def)
next
  case (Cons k q)
  with assms have "k \<noteq> []" by auto
  then have "foldl new_key [] (k # q) = k @ concat (map ((#) dot) q)"
    by (simp add: new_key_def foldl_new_key)
  with Cons show ?thesis
    by (simp add: join_keys_Cons str_replace_concat del: join_keys.simps)
qed

lemmas table_simps =
  output_table_def json_normalize_def DataFrame_def normalise_json_ordered_def is_dict_def
  new_key_def first_seen_def str_replace_def Let_def

text \<open>
  Claim C7, as stated, fails: the key \<open>gate.number\<close> is a key of the record itself, its dot
  separates no nested keys, and yet the column is named \<open>gate_number\<close>; no column keeps the
  name \<open>gate.number\<close>.
\<close>

theorem only_separators_renamed_counterexample:
  "record_paths flight_gate =
     [[str ''gate.number''], [str ''check-in''], [str ''date''], [str ''iata''], [str ''icao''],
      [str ''airport_name''], [str ''carrier'', str ''fs''], [str ''carrier'', str ''name'']]
   \<and> join_keys underscore [str ''gate.number''] = str ''gate.number''
   \<and> columns (output_table [flight_gate]) =
       [str ''gate_number'', str ''check-in'', str ''date'', str ''iata'', str ''icao'',
        str ''airport_name'', str ''carrier_fs'', str ''carrier_name'']
   \<and> str ''gate.number'' \<notin> set (columns (output_table [flight_gate]))"
  by (simp add: flight_gate_def record_paths_def table_simps)

text \<open>
  Claim C7, amended. The column names of the output table are the column names that
  \<open>json_normalize\<close> gives, in the same order, with every dot replaced by an underscore and
  every other character as it was, the dots of the keys themselves included; the rows are
  untouched. For records without empty keys, the names are the paths of keys to the
  values that are not dicts, each key with its dots replaced, joined by underscores.
\<close>

theorem column_names_replace_every_dot:
  "columns (output_table fs) =
     map (map (\<lambda>c. if c = dot then underscore else c)) (columns (json_normalize fs))
   \<and> rows (output_table fs) = rows (json_normalize fs)
   \<and> ((\<forall>r\<in>set fs. \<forall>p\<in>set (record_paths r). [] \<notin> set p) \<longrightarrow>
        set (columns (output_table fs))
          = (\<lambda>p. join_keys underscore (map (map (\<lambda>c. if c = dot then underscore else c)) p))
              ` (\<Union>r\<in>set fs. set (record_paths r)))"
proof (intro conjI impI)
  show 1: "columns (output_table fs) =
      map (map (\<lambda>c. if c = dot then underscore else c)) (columns (json_normalize fs))"
    by (simp add: output_table_def Let_def str_replace_def)
  show "rows (output_table fs) = rows (json_normalize fs)"
    by (simp add: output_table_def Let_def)
  assume ne: "\<forall>r\<in>set fs. \<forall>p\<in>set (record_paths r). [] \<notin> set p"
  have r: "map (\<lambda>c. if c = dot then underscore else c) = str_replace dot underscore"
    by (simp add: str_replace_def fun_eq_iff)
  have "set (columns (output_table fs))
      = (\<lambda>p. str_replace dot underscore (foldl new_key [] p)) ` (\<Union>r\<in>set fs. set (record_paths r))"
    unfolding 1 r by (simp add: set_columns_json_normalize image_UN image_image)
  also have "\<dots> = (\<lambda>p. join_keys underscore (map (str_replace dot underscore) p))
      ` (\<Union>r\<in>set fs. set (record_paths r))"
    using ne by (intro image_cong refl renamed_path) auto
  finally show "set (columns (output_table fs))
      = (\<lambda>p. join_keys underscore (map (map (\<lambda>c. if c = dot then underscore else c)) p))
          ` (\<Union>r\<in>set fs. set (record_paths r))"
    unfolding r .
qed

theorem column_names_replace_every_dot_witness:
  "list_all (\<lambda>p. [] \<notin> set p) (record_paths flight_gate)
   \<and> columns (json_normalize [flight_gate]) =
       [str ''gate.number'', str ''check-in'', str ''date'', str ''iata'', str ''icao'',
        str ''airport_name'', str ''carrier.fs'', str ''carrier.name'']
   \<and> columns (output_table [flight_gate]) =
       [str ''gate_number'', str ''check-in'', str ''date'', str ''iata'', str ''icao'',
        str ''airport_name'', str ''carrier_fs'', str ''carrier_name'']
   \<and> set (columns (output_table [flight_gate])) =
       (\<lambda>p. join_keys underscore (map (map (\<lambda>c. if c = dot then underscore else c)) p))
         ` set (record_paths flight_gate)"
proof -
  have h: "\<forall>r\<in>set [flight_gate]. \<forall>p\<in>set (record_paths r). [] \<notin> set p"
    by (simp add: flight_gate_def record_paths_def is_dict_def)
  have c: "columns (json_normalize [flight_gate]) =
       [str ''gate.number'', str ''check-in'', str ''date'', str ''iata'', str ''icao'',
        str ''airport_name'', str ''carrier.fs'', str ''carrier.name'']"
    by (simp add: flight_gate_def table_simps)
  have l: "list_all (\<lambda>p. [] \<notin> set p) (record_paths flight_gate)"
    by (simp add: flight_gate_def record_paths_def is_dict_def)
  from column_names_replace_every_dot [of "[flight_gate]"] h
  have 1: "columns (output_table [flight_gate]) =
      map (map (\<lambda>c. if c = dot then underscore else c)) (columns (json_normalize [flight_gate]))"
    and 2: "set (columns (output_table [flight_gate])) =
       (\<lambda>p. join_keys underscore (map (map (\<lambda>c. if c = dot then underscore else c)) p))
         ` (\<Union>r\<in>set [flight_gate]. set (record_paths r))"
    by blast+
  from 1 have 3: "columns (output_table [flight_gate]) =
       [str ''gate_number'', str ''check-in'', str ''date'', str ''iata'', str ''icao'',
        str ''airport_name'', str ''carrier_fs'', str ''carrier_name'']"
    unfolding c by simp
  from 2 have 4: "set (columns (output_table [flight_gate])) =
       (\<lambda>p. join_keys underscore (map (map (\<lambda>c. if c = dot then underscore else c)) p))
         ` set (record_paths flight_gate)"
    by simp
  from l c 3 4 show ?thesis by blast
qed

section \<open>The aggregator\<close>

lemma flatten_logged_events:
  "flatten_logged a h doc = (r, t) \<Longrightarrow> filter is_HttpGet t = [] \<and> filter is_ToCsv t = []"
  by (auto simp: flatten_logged_def split: sum.splits if_splits)

text \<open>One window is one request, and writes no file.\<close>

lemma scrap_events:
  assumes "scrap_flight_stats E a y m d h = (r, t)"
  shows "filter is_HttpGet t = [HttpGet (full_url E a y m d h)] \<and> filter is_ToCsv t = []"
  using assms
  by (auto simp: scrap_flight_stats_def Let_def
      split: sum.splits option.splits prod.splits if_splits dest: flatten_logged_events)

subsection \<open>The loops over the windows\<close>

lemma scrap_hours_collect:
  "scrap_hours E c (tomorrow E) hs fl = collect E (map (Pair c) hs) fl"
  by (induction hs arbitrary: fl) (simp_all split: prod.splits sum.splits)

lemma collect_append:
  "collect E (xs @ ys) fl =
     (case collect E xs fl of
        (Inl e, t) \<Rightarrow> (Inl e, t)
      | (Inr fl', t) \<Rightarrow> (case collect E ys fl' of (r, t') \<Rightarrow> (r, t @ t')))"
  by (induction xs arbitrary: fl) (auto split: prod.splits sum.splits)

lemma scrap_airports_collect:
  "scrap_airports E (tomorrow E) hs cs fl = collect E (List.product cs hs) fl"
  by (induction cs arbitrary: fl)
    (simp_all add: scrap_hours_collect collect_append split: prod.splits sum.splits)

text \<open>
  The loop goes through the windows in order, as far as the first window that raises:
  it makes one request for each window it reaches and writes no file; when no window
  raises, it returns the records of all windows, in order, after those it was given;
  otherwise it raises what that window raises.
\<close>

lemma collect_run:
  assumes "collect E ws fl = (r, t)"
  shows "filter is_HttpGet t =
           map (\<lambda>(c, h). HttpGet (window_url E c h))
             (take (Suc (length (takeWhile (\<lambda>(c, h). window_raises E c h = None) ws))) ws)
       \<and> filter is_ToCsv t = []
       \<and> (if list_all (\<lambda>(c, h). window_raises E c h = None) ws
          then r = Inr (fl @ concat (map (\<lambda>(c, h). window_records E c h) ws))
          else \<exists>e. r = Inl e
                 \<and> (case ws ! length (takeWhile (\<lambda>(c, h). window_raises E c h = None) ws) of
                      (c, h) \<Rightarrow> window_raises E c h) = Some e)"
  using assms
proof (induction ws arbitrary: fl r t)
  case Nil
  then show ?case by auto
next
  case (Cons w ws)
  obtain c h where w: "w = (c, h)" by (cases w)
  let ?s = "scrap_flight_stats E c (fst (tomorrow E)) (fst (snd (tomorrow E)))
              (snd (snd (tomorrow E))) h"
  obtain r0 t0 where s: "?s = (r0, t0)" by (cases ?s)
  from scrap_events [OF s]
  have g: "filter is_HttpGet t0 = [HttpGet (window_url E c h)]" and n: "filter is_ToCsv t0 = []"
    by (simp_all add: window_url_def)
  show ?case
  proof (cases r0)
    case (Inl e)
    with s have "window_raises E c h = Some e"
      by (simp add: window_raises_def)
    moreover from Cons.prems s Inl w have "r = Inl e" "t = t0"
      by simp_all
    ultimately show ?thesis using g n w by simp
  next
    case (Inr found)
    with s have ok: "window_raises E c h = None" and rec: "window_records E c h = found"
      by (simp_all add: window_raises_def window_records_def)
    from Cons.prems s Inr w obtain t' where rest: "collect E ws (fl @ found) = (r, t')"
      and t: "t = t0 @ t'"
      by (auto split: prod.splits)
    from Cons.IH [OF rest] g n ok rec t w show ?thesis by simp
  qed
qed

text \<open>The same for the two loops of \<open>main\<close>, when they come to their end.\<close>

lemma scrap_airports_ok:
  assumes "scrap_airports E (tomorrow E) hs cs fl = (Inr r, t)"
  shows "r = fl @ concat (map (\<lambda>c. concat (map (window_records E c) hs)) cs)"
  using assms
proof (induction cs arbitrary: fl t)
  case Nil
  then show ?case by simp
next
  case (Cons c cs)
  from Cons.prems obtain fl' t0 t' where s: "scrap_hours E c (tomorrow E) hs fl = (Inr fl', t0)"
    and rest: "scrap_airports E (tomorrow E) hs cs fl' = (Inr r, t')"
    by (auto split: prod.splits sum.splits)
  from s have "collect E (map (Pair c) hs) fl = (Inr fl', t0)"
    by (simp add: scrap_hours_collect)
  from collect_run [OF this] have "fl' = fl @ concat (map (window_records E c) hs)"
    by (auto simp: comp_def split: if_splits)
  with Cons.IH [OF rest] show ?case by simp
qed

lemma length_concat_product:
  "length (concat (map (\<lambda>(c, h). g c h) ws)) = (\<Sum>(c, h)\<leftarrow>ws. length (g c h))"
  by (induction ws) (auto simp: length_concat comp_def)

subsection \<open>The resolver and the write phase\<close>

lemma db_events:
  "get_airport_code_list_db E i c = (r, t) \<Longrightarrow> filter is_HttpGet t = [] \<and> filter is_ToCsv t = []"
  by (auto simp: get_airport_code_list_db_def DatabaseConnection_init_def
      DatabaseConnection_exit_def Let_def split: sum.splits option.splits if_splits)

lemma csv_events:
  "get_airport_code_list_csv E i c = (r, t) \<Longrightarrow> filter is_HttpGet t = [] \<and> filter is_ToCsv t = []"
  by (auto simp: get_airport_code_list_csv_def Let_def split: sum.splits option.splits)

lemma resolver_events:
  assumes "get_airport_code_list E i c = (r, t)"
  shows "filter is_HttpGet t = [] \<and> filter is_ToCsv t = []"
  using assms
  by (auto simp: get_airport_code_list_def Let_def split: sum.splits prod.splits if_splits
      dest: db_events csv_events)

text \<open>
  The write phase, case by case: no record; a record too deeply nested for
  \<open>json_normalize\<close>; the output directory not created; the first file not written; the
  second file not written; both files written.
\<close>

lemma write_flights_cases:
  "write_flights E fl =
     (if fl = [] then (Inr (), [Log WARNING NoFlightData])
      else if list_ex (too_nested E) fl then (Inl RecursionError, [])
      else case create_dir E (OUTPUT_DIR E) of
             Some e \<Rightarrow> (Inl e, [CreateDir (OUTPUT_DIR E)])
           | None \<Rightarrow>
               (case to_csv E (path_join (DBT_DATA_DIR E) (OUTPUT_FILE_NAME E)) (output_table fl) of
                  Some e \<Rightarrow>
                    (Inl e,
                     [CreateDir (OUTPUT_DIR E),
                      Log INFO (SavingTo (path_join (DBT_DATA_DIR E) (OUTPUT_FILE_NAME E))),
                      ToCsv (path_join (DBT_DATA_DIR E) (OUTPUT_FILE_NAME E)) (output_table fl)
                        False (str ''utf-8'')])
                | None \<Rightarrow>
                    (case to_csv E (path_join (OUTPUT_DIR E) (OUTPUT_FILE_NAME E)) (output_table fl) of
                       Some e \<Rightarrow>
                         (Inl e,
                          [CreateDir (OUTPUT_DIR E),
                           Log INFO (SavingTo (path_join (DBT_DATA_DIR E) (OUTPUT_FILE_NAME E))),
                           ToCsv (path_join (DBT_DATA_DIR E) (OUTPUT_FILE_NAME E)) (output_table fl)
                             False (str ''utf-8''),
                           Log INFO (SavingTo (path_join (OUTPUT_DIR E) (OUTPUT_FILE_NAME E))),
                           ToCsv (path_join (OUTPUT_DIR E) (OUTPUT_FILE_NAME E)) (output_table fl)
                             False (str ''utf-8'')])
                     | None \<Rightarrow>
                         (Inr (),
                          [CreateDir (OUTPUT_DIR E),
                           Log INFO (SavingTo (path_join (DBT_DATA_DIR E) (OUTPUT_FILE_NAME E))),
                           ToCsv (path_join (DBT_DATA_DIR E) (OUTPUT_FILE_NAME E)) (output_table fl)
                             False (str ''utf-8''),
                           Log INFO (SavingTo (path_join (OUTPUT_DIR E) (OUTPUT_FILE_NAME E))),
                           ToCsv (path_join (OUTPUT_DIR E) (OUTPUT_FILE_NAME E)) (output_table fl)
                             False (str ''utf-8''),
                           Log INFO (SampleResults (head (output_table fl))), Log INFO Done]))))"
  by (simp add: write_flights_def output_paths_def Let_def split: option.splits)

lemma write_flights_HttpGet: "filter is_HttpGet (snd (write_flights E fl)) = []"
  by (simp add: write_flights_cases split: option.splits)

lemma write_flights_ToCsv:
  "filter is_ToCsv (snd (write_flights E fl)) =
     (if fl = [] \<or> list_ex (too_nested E) fl then []
      else case create_dir E (OUTPUT_DIR E) of
             Some e \<Rightarrow> []
           | None \<Rightarrow>
               (case to_csv E (path_join (DBT_DATA_DIR E) (OUTPUT_FILE_NAME E)) (output_table fl) of
                  Some e \<Rightarrow>
                    [ToCsv (path_join (DBT_DATA_DIR E) (OUTPUT_FILE_NAME E)) (output_table fl)
                       False (str ''utf-8'')]
                | None \<Rightarrow>
                    [ToCsv (path_join (DBT_DATA_DIR E) (OUTPUT_FILE_NAME E)) (output_table fl)
                       False (str ''utf-8''),
                     ToCsv (path_join (OUTPUT_DIR E) (OUTPUT_FILE_NAME E)) (output_table fl)
                       False (str ''utf-8'')]))"
  by (simp add: write_flights_cases split: option.splits)

lemma write_flights_raises:
  "fst (write_flights E fl) =
     (if fl = [] then Inr ()
      else if list_ex (too_nested E) fl then Inl RecursionError
      else case create_dir E (OUTPUT_DIR E) of
             Some e \<Rightarrow> Inl e
           | None \<Rightarrow>
               (case to_csv E (path_join (DBT_DATA_DIR E) (OUTPUT_FILE_NAME E)) (output_table fl) of
                  Some e \<Rightarrow> Inl e
                | None \<Rightarrow>
                    (case to_csv E (path_join (OUTPUT_DIR E) (OUTPUT_FILE_NAME E)) (output_table fl) of
                       Some e \<Rightarrow> Inl e
                     | None \<Rightarrow> Inr ())))"
  by (simp add: write_flights_cases split: option.splits)

lemma write_flights_tables:
  "ToCsv p df ix enc \<in> set (snd (write_flights E fl)) \<Longrightarrow> df = output_table fl \<and> fl \<noteq> []"
proof -
  assume "ToCsv p df ix enc \<in> set (snd (write_flights E fl))"
  then have "ToCsv p df ix enc \<in> set (filter is_ToCsv (snd (write_flights E fl)))"
    by simp
  then show ?thesis
    unfolding write_flights_ToCsv by (auto split: if_splits option.splits)
qed

subsection \<open>The run\<close>

lemma main_unfold:
  assumes "get_airport_code_list E (str ''ICAO'') (str ''Tunisia'') = (Inr codes, t1)"
      and "scrap_airports E (tomorrow E) valid_hours codes [] = (Inr flights, t3)"
  shows "main E = (fst (write_flights E flights),
           [Log INFO (ScrapingFor (fst (tomorrow E)) (fst (snd (tomorrow E))) (snd (snd (tomorrow E))))]
           @ t1 @ [Log INFO (AirportCodes codes)] @ t3 @ snd (write_flights E flights))"
  using assms by (simp add: main_def Let_def split: prod.splits)

lemma main_raises:
  assumes "get_airport_code_list E (str ''ICAO'') (str ''Tunisia'') = (Inr codes, t1)"
      and "scrap_airports E (tomorrow E) valid_hours codes [] = (Inl e, t3)"
  shows "main E = (Inl e,
           [Log INFO (ScrapingFor (fst (tomorrow E)) (fst (snd (tomorrow E))) (snd (snd (tomorrow E))))]
           @ t1 @ [Log INFO (AirportCodes codes)] @ t3)"
  using assms by (simp add: main_def Let_def)

text \<open>The requests and the files of a run are those of its loops and of its write phase.\<close>

lemma main_HttpGet:
  assumes "get_airport_code_list E (str ''ICAO'') (str ''Tunisia'') = (Inr codes, t1)"
  shows "filter is_HttpGet (snd (main E))
       = filter is_HttpGet (snd (scrap_airports E (tomorrow E) valid_hours codes []))"
proof (cases "scrap_airports E (tomorrow E) valid_hours codes []")
  case (Pair r t3)
  show ?thesis
  proof (cases r)
    case (Inl e)
    with Pair resolver_events [OF assms] show ?thesis
      by (simp add: main_raises [OF assms])
  next
    case (Inr flights)
    with Pair resolver_events [OF assms] show ?thesis
      by (simp add: main_unfold [OF assms] write_flights_HttpGet)
  qed
qed

lemma main_ToCsv:
  assumes "get_airport_code_list E (str ''ICAO'') (str ''Tunisia'') = (Inr codes, t1)"
  shows "filter is_ToCsv (snd (main E)) =
           (case fst (scrap_airports E (tomorrow E) valid_hours codes []) of
              Inl e \<Rightarrow> []
            | Inr flights \<Rightarrow> filter is_ToCsv (snd (write_flights E flights)))"
proof (cases "scrap_airports E (tomorrow E) valid_hours codes []")
  case (Pair r t3)
  from Pair have n: "filter is_ToCsv t3 = []"
    using collect_run [of E "List.product codes valid_hours" "[]" r t3]
    by (simp add: scrap_airports_collect)
  show ?thesis
  proof (cases r)
    case (Inl e)
    with Pair n resolver_events [OF assms] show ?thesis
      by (simp add: main_raises [OF assms])
  next
    case (Inr flights)
    with Pair n resolver_events [OF assms] show ?thesis
      by (simp add: main_unfold [OF assms])
  qed
qed

text \<open>A table that the run hands to \<open>to_csv\<close> is the table of the records it has collected.\<close>

lemma main_tables:
  assumes "get_airport_code_list E (str ''ICAO'') (str ''Tunisia'') = (Inr codes, t1)"
      and "ToCsv p df ix enc \<in> set (snd (main E))"
  shows "\<exists>flights t3. scrap_airports E (tomorrow E) valid_hours codes [] = (Inr flights, t3)
           \<and> df = output_table flights \<and> flights \<noteq> []"
proof -
  from assms(2) have m: "ToCsv p df ix enc \<in> set (filter is_ToCsv (snd (main E)))" by simp
  obtain r t3 where s: "scrap_airports E (tomorrow E) valid_hours codes [] = (r, t3)"
    by (cases "scrap_airports E (tomorrow E) valid_hours codes []")
  show ?thesis
  proof (cases r)
    case (Inl e)
    with m s show ?thesis by (simp add: main_ToCsv [OF assms(1)])
  next
    case (Inr flights)
    with m s have "ToCsv p df ix enc \<in> set (snd (write_flights E flights))"
      by (simp add: main_ToCsv [OF assms(1)])
    from write_flights_tables [OF this] s Inr show ?thesis by simp
  qed
qed

text \<open>A row of the table is a record, read along the columns.\<close>

lemma rows_output_table:
  "rows (output_table fl) =
     map (\<lambda>f. map (map_of (normalise_json_ordered f)) (columns (json_normalize fl))) fl"
  by (simp add: output_table_def json_normalize_def DataFrame_def Let_def comp_def)

subsection \<open>The example runs, evaluated\<close>

lemma extract_dtta:
  assumes "decoder_depth E = 990"
  shows "extract_document E page_dtta =
     Some (Inr (document (JArr [JObj [(str ''n'', JInt 1)], JObj [(str ''n'', JInt 2)], JObj [(str ''n'', JInt 3)]])
           (JObj [(str ''date'', JStr (str ''2025-06-01'')),
                  (str ''arrivalAirport'',
                   JObj [(str ''iata'', JStr (str ''TUN'')), (str ''icao'', JStr (str ''DTTA'')),
                         (str ''name'', JStr (str ''Tunis''))])])))"
  using assms
  by (simp add: extract_document_def page_dtta_def match_here_def marker_def is_space_def
      terminated_def json_loads_simps document_def)

lemma extract_dttj:
  assumes "decoder_depth E = 990"
  shows "extract_document E page_dttj =
     Some (Inr (document (JArr [JObj [(str ''n'', JInt 4)], JObj [(str ''n'', JInt 5)], JObj [(str ''n'', JInt 6)]])
           (JObj [(str ''date'', JStr (str ''2025-06-01'')),
                  (str ''arrivalAirport'',
                   JObj [(str ''iata'', JStr (str ''DJE'')), (str ''icao'', JStr (str ''DTTJ'')),
                         (str ''name'', JStr (str ''Djerba''))])])))"
  using assms
  by (simp add: extract_document_def page_dttj_def match_here_def marker_def is_space_def
      terminated_def json_loads_simps document_def)

lemma extract_list_entry:
  assumes "decoder_depth E = 990"
  shows "extract_document E page_list_entry =
     Some (Inr (document (JArr [JArr [JInt 1]])
           (JObj [(str ''date'', JStr (str ''2025-06-01'')),
                  (str ''arrivalAirport'',
                   JObj [(str ''iata'', JStr (str ''TUN'')), (str ''icao'', JStr (str ''DTTA'')),
                         (str ''name'', JStr (str ''Tunis''))])])))"
  using assms
  by (simp add: extract_document_def page_list_entry_def match_here_def marker_def is_space_def
      terminated_def json_loads_simps document_def)

lemma extract_maintenance: "extract_document E maintenance_page = None"
  by (simp add: extract_document_def maintenance_page_def match_here_def marker_def)

lemma extract_broken:
  assumes "decoder_depth E = 990"
  shows "extract_document E page_broken = Some (Inl JSONDecodeError)"
  using assms
  by (simp add: extract_document_def page_broken_def match_here_def marker_def is_space_def
      terminated_def json_loads_simps)

lemmas demo_simps =
  env_demo_def env_list_entry_def env_no_directory_def env_maintenance_def env_timeout_def
  demo_http_def demo_url_def full_url_def py_str_int_def scrap_flight_stats_def flatten_logged_def
  flatten_def iter_def enrich_def copy_header_def setitem_def getitem_def and_then_def
  document_def extract_dtta extract_dttj extract_list_entry extract_maintenance extract_broken
  flight_n_def flights_dtta_def flights_dttj_def Let_def

lemmas resolver_simps =
  get_airport_code_list_def get_airport_code_list_db_def get_airport_code_list_csv_def
  DatabaseConnection_init_def DatabaseConnection_exit_def airports_csv_def path_join_def
  column_index_def cell_at_def

lemma demo_windows:
  "map (\<lambda>(c, h). window_records env_demo c h)
     (List.product [Str (str ''DTTA''), Str (str ''DTTJ'')] [0, 6, 12, 18])
   = [flights_dtta, flights_dtta, flights_dtta, flights_dtta, flights_dttj, [], [], []]"
  by (simp add: window_records_def demo_simps)

lemma demo_returns:
  "map (\<lambda>(c, h). window_raises env_demo c h)
     (List.product [Str (str ''DTTA''), Str (str ''DTTJ'')] [0, 6, 12, 18])
   = [None, None, None, None, None, None, None, None]"
  by (simp add: window_raises_def demo_simps)

lemma demo_codes:
  "get_airport_code_list env_demo (str ''ICAO'') (str ''Tunisia'') =
     (Inr [Str (str ''DTTA''), Str (str ''DTTJ'')],
      [Log INFO (FetchingCodeList (str ''ICAO'') (str ''Tunisia'')),
       DbConnect (PG_URL env_demo),
       DbExecute (select_sql (str ''ICAO'')) [(str ''country'', str ''Tunisia'')], DbClose])"
  by (simp add: resolver_simps env_demo_def env_timeout_def)

lemma demo_collect:
  "fst (scrap_airports env_demo (tomorrow env_demo) valid_hours [Str (str ''DTTA''), Str (str ''DTTJ'')] [])
     = Inr demo_flights"
  by (simp add: valid_hours_def demo_flights_def demo_simps)

lemma demo_not_nested: "demo_flights \<noteq> [] \<and> \<not> list_ex (too_nested env_demo) demo_flights"
  by (simp add: demo_flights_def flights_dtta_def flights_dttj_def flight_n_def too_nested_def
      is_dict_def env_demo_def env_timeout_def)

lemma demo_main: "fst (main env_demo) = Inr ()"
proof -
  obtain t3 where s: "scrap_airports env_demo (tomorrow env_demo) valid_hours
      [Str (str ''DTTA''), Str (str ''DTTJ'')] [] = (Inr demo_flights, t3)"
    using demo_collect
    by (cases "scrap_airports env_demo (tomorrow env_demo) valid_hours
          [Str (str ''DTTA''), Str (str ''DTTJ'')] []") simp
  have "fst (write_flights env_demo demo_flights) = Inr ()"
    unfolding write_flights_raises using demo_not_nested
    by (simp add: env_demo_def env_timeout_def)
  then show ?thesis
    by (simp add: main_unfold [OF demo_codes s])
qed

lemma demo_urls:
  "map (\<lambda>(c, h). window_url env_demo c h)
     (List.product [Str (str ''DTTA''), Str (str ''DTTJ'')] [0, 6, 12, 18])
   = [demo_url ''DTTA'' ''0'', demo_url ''DTTA'' ''6'', demo_url ''DTTA'' ''12'', demo_url ''DTTA'' ''18'',
      demo_url ''DTTJ'' ''0'', demo_url ''DTTJ'' ''6'', demo_url ''DTTJ'' ''12'', demo_url ''DTTJ'' ''18'']"
  by (simp add: window_url_def full_url_def py_str_int_def demo_url_def env_demo_def env_timeout_def)

lemma maintenance_codes:
  "fst (get_airport_code_list env_maintenance (str ''ICAO'') (str ''Tunisia'')) = Inr [Str (str ''DTTA'')]"
  by (simp add: resolver_simps env_maintenance_def env_timeout_def)

lemma maintenance_collect:
  "fst (scrap_airports env_maintenance (tomorrow env_maintenance) valid_hours [Str (str ''DTTA'')] []) = Inr []"
  by (simp add: valid_hours_def demo_simps)

lemma demo_writes:
  "filter is_ToCsv (snd (main env_demo)) =
     [ToCsv (str ''/app/dbt/data/arrivals.csv'') (output_table demo_flights) False (str ''utf-8''),
      ToCsv (str ''/app/extract_load/output/arrivals.csv'') (output_table demo_flights) False (str ''utf-8'')]"
proof -
  have "filter is_ToCsv (snd (main env_demo)) = filter is_ToCsv (snd (write_flights env_demo demo_flights))"
    by (simp only: main_ToCsv [OF demo_codes] demo_collect sum.case)
  also have "\<dots> =
     [ToCsv (str ''/app/dbt/data/arrivals.csv'') (output_table demo_flights) False (str ''utf-8''),
      ToCsv (str ''/app/extract_load/output/arrivals.csv'') (output_table demo_flights) False (str ''utf-8'')]"
    unfolding write_flights_ToCsv using demo_not_nested
    by (simp add: path_join_def env_demo_def env_timeout_def)
  finally show ?thesis .
qed

lemma demo_written:
  "ToCsv (str ''/app/dbt/data/arrivals.csv'') (output_table demo_flights) False (str ''utf-8'')
     \<in> set (snd (main env_demo))"
proof -
  have "ToCsv (str ''/app/dbt/data/arrivals.csv'') (output_table demo_flights) False (str ''utf-8'')
     \<in> set (filter is_ToCsv (snd (main env_demo)))"
    unfolding demo_writes by simp
  then show ?thesis by simp
qed

text \<open>The run in which the second window raises, and the run without the dbt data directory.\<close>

lemma list_entry_codes:
  "get_airport_code_list env_list_entry (str ''ICAO'') (str ''Tunisia'') =
     (Inr [Str (str ''DTTA''), Str (str ''DTTJ'')],
      [Log INFO (FetchingCodeList (str ''ICAO'') (str ''Tunisia'')),
       DbConnect (PG_URL env_list_entry),
       DbExecute (select_sql (str ''ICAO'')) [(str ''country'', str ''Tunisia'')], DbClose])"
  by (simp add: resolver_simps env_list_entry_def env_demo_def env_timeout_def)

lemma list_entry_collect:
  "fst (scrap_airports env_list_entry (tomorrow env_list_entry) valid_hours
          [Str (str ''DTTA''), Str (str ''DTTJ'')] []) = Inl TypeError
   \<and> filter is_HttpGet (snd (scrap_airports env_list_entry (tomorrow env_list_entry) valid_hours
          [Str (str ''DTTA''), Str (str ''DTTJ'')] []))
       = [HttpGet (demo_url ''DTTA'' ''0''), HttpGet (demo_url ''DTTA'' ''6'')]"
  by (simp add: valid_hours_def demo_simps)

lemma no_directory_codes:
  "get_airport_code_list env_no_directory (str ''ICAO'') (str ''Tunisia'') =
     (Inr [Str (str ''DTTA''), Str (str ''DTTJ'')],
      [Log INFO (FetchingCodeList (str ''ICAO'') (str ''Tunisia'')),
       DbConnect (PG_URL env_no_directory),
       DbExecute (select_sql (str ''ICAO'')) [(str ''country'', str ''Tunisia'')], DbClose])"
  by (simp add: resolver_simps env_no_directory_def env_demo_def env_timeout_def)

lemma no_directory_collect:
  "fst (scrap_airports env_no_directory (tomorrow env_no_directory) valid_hours
          [Str (str ''DTTA''), Str (str ''DTTJ'')] []) = Inr demo_flights"
  by (simp add: valid_hours_def demo_flights_def demo_simps)

subsection \<open>The claims\<close>

text \<open>
  Claim C6, as stated, fails: nothing from line 77 on is inside a \<open>try\<close>. In the run without
  the dbt data directory the records are there, the first \<open>to_csv\<close> raises, and the run
  ends with that exception: one \<open>to_csv\<close> was called, not two, and the file in the output
  directory is not written.
\<close>

theorem no_records_no_file_counterexample:
  "fst (scrap_airports env_no_directory (tomorrow env_no_directory) valid_hours
          [Str (str ''DTTA''), Str (str ''DTTJ'')] []) = Inr demo_flights
   \<and> demo_flights \<noteq> []
   \<and> to_csv env_no_directory (str ''/app/dbt/data/arrivals.csv'') (output_table demo_flights)
       = Some no_directory
   \<and> fst (main env_no_directory) = Inl no_directory
   \<and> filter is_ToCsv (snd (main env_no_directory)) =
       [ToCsv (str ''/app/dbt/data/arrivals.csv'') (output_table demo_flights) False (str ''utf-8'')]"
proof -
  obtain t3 where s: "scrap_airports env_no_directory (tomorrow env_no_directory) valid_hours
      [Str (str ''DTTA''), Str (str ''DTTJ'')] [] = (Inr demo_flights, t3)"
    using no_directory_collect
    by (cases "scrap_airports env_no_directory (tomorrow env_no_directory) valid_hours
          [Str (str ''DTTA''), Str (str ''DTTJ'')] []") simp
  have n: "demo_flights \<noteq> [] \<and> \<not> list_ex (too_nested env_no_directory) demo_flights"
    by (simp add: demo_flights_def flights_dtta_def flights_dttj_def flight_n_def too_nested_def
        is_dict_def env_no_directory_def env_demo_def env_timeout_def)
  have w: "to_csv env_no_directory (str ''/app/dbt/data/arrivals.csv'') (output_table demo_flights)
       = Some no_directory"
    by (simp add: env_no_directory_def)
  have 1: "fst (main env_no_directory) = Inl no_directory"
    unfolding main_unfold [OF no_directory_codes s] fst_conv write_flights_raises using n
    by (simp add: path_join_def env_no_directory_def env_demo_def env_timeout_def)
  have "filter is_ToCsv (snd (main env_no_directory))
      = filter is_ToCsv (snd (write_flights env_no_directory demo_flights))"
    by (simp only: main_ToCsv [OF no_directory_codes] no_directory_collect sum.case)
  also have "\<dots> =
       [ToCsv (str ''/app/dbt/data/arrivals.csv'') (output_table demo_flights) False (str ''utf-8'')]"
    unfolding write_flights_ToCsv using n
    by (simp add: path_join_def env_no_directory_def env_demo_def env_timeout_def)
  finally show ?thesis using no_directory_collect n w 1 by simp
qed

text \<open>
  Claim C6, amended. When the run has collected no record, \<open>main\<close> returns after the
  warning that no flight data was found, and its trace has no \<open>to_csv\<close>. When it has
  collected some, it calls \<open>to_csv\<close> with \<open>index=False\<close> and \<open>encoding='utf-8'\<close> for the file in
  the dbt data directory and then for the file in the output directory, with the same
  table, as far as nothing raises: no call when \<open>json_normalize\<close> exceeds the recursion
  limit or \<open>create_dir\<close> raises, the first call alone when it raises, and otherwise the
  two calls and no more. The exception that is raised ends the run.
\<close>

theorem no_records_no_file:
  assumes "get_airport_code_list E (str ''ICAO'') (str ''Tunisia'') = (Inr codes, t1)"
      and "scrap_airports E (tomorrow E) valid_hours codes [] = (Inr flights, t3)"
  shows "(flights = [] \<longrightarrow>
            main E =
              (Inr (),
               [Log INFO (ScrapingFor (fst (tomorrow E)) (fst (snd (tomorrow E))) (snd (snd (tomorrow E))))]
               @ t1 @ [Log INFO (AirportCodes codes)] @ t3 @ [Log WARNING NoFlightData])
            \<and> filter is_ToCsv (snd (main E)) = [])
       \<and> (flights \<noteq> [] \<longrightarrow>
            filter is_ToCsv (snd (main E)) =
              (if list_ex (too_nested E) flights then []
               else case create_dir E (OUTPUT_DIR E) of
                      Some e \<Rightarrow> []
                    | None \<Rightarrow>
                        (case to_csv E (path_join (DBT_DATA_DIR E) (OUTPUT_FILE_NAME E))
                                (output_table flights) of
                           Some e \<Rightarrow>
                             [ToCsv (path_join (DBT_DATA_DIR E) (OUTPUT_FILE_NAME E))
                                (output_table flights) False (str ''utf-8'')]
                         | None \<Rightarrow>
                             [ToCsv (path_join (DBT_DATA_DIR E) (OUTPUT_FILE_NAME E))
                                (output_table flights) False (str ''utf-8''),
                              ToCsv (path_join (OUTPUT_DIR E) (OUTPUT_FILE_NAME E))
                                (output_table flights) False (str ''utf-8'')]))
            \<and> fst (main E) =
                (if list_ex (too_nested E) flights then Inl RecursionError
                 else case create_dir E (OUTPUT_DIR E) of
                        Some e \<Rightarrow> Inl e
                      | None \<Rightarrow>
                          (case to_csv E (path_join (DBT_DATA_DIR E) (OUTPUT_FILE_NAME E))
                                  (output_table flights) of
                             Some e \<Rightarrow> Inl e
                           | None \<Rightarrow>
                               (case to_csv E (path_join (OUTPUT_DIR E) (OUTPUT_FILE_NAME E))
                                       (output_table flights) of
                                  Some e \<Rightarrow> Inl e
                                | None \<Rightarrow> Inr ()))))"
proof -
  from assms(2) have c: "fst (scrap_airports E (tomorrow E) valid_hours codes []) = Inr flights"
    by simp
  have w: "filter is_ToCsv (snd (main E)) = filter is_ToCsv (snd (write_flights E flights))"
    by (simp add: main_ToCsv [OF assms(1)] c)
  have r: "fst (main E) = fst (write_flights E flights)"
    by (simp add: main_unfold [OF assms])
  show ?thesis
  proof (intro conjI impI)
    assume "flights = []"
    then show "main E =
      (Inr (),
       [Log INFO (ScrapingFor (fst (tomorrow E)) (fst (snd (tomorrow E))) (snd (snd (tomorrow E))))]
       @ t1 @ [Log INFO (AirportCodes codes)] @ t3 @ [Log WARNING NoFlightData])"
      by (simp add: main_unfold [OF assms] write_flights_cases)
  next
    assume "flights = []"
    then show "filter is_ToCsv (snd (main E)) = []"
      unfolding w write_flights_ToCsv by simp
  next
    assume "flights \<noteq> []"
    then show "filter is_ToCsv (snd (main E)) =
        (if list_ex (too_nested E) flights then []
         else case create_dir E (OUTPUT_DIR E) of
                Some e \<Rightarrow> []
              | None \<Rightarrow>
                  (case to_csv E (path_join (DBT_DATA_DIR E) (OUTPUT_FILE_NAME E))
                          (output_table flights) of
                     Some e \<Rightarrow>
                       [ToCsv (path_join (DBT_DATA_DIR E) (OUTPUT_FILE_NAME E))
                          (output_table flights) False (str ''utf-8'')]
                   | None \<Rightarrow>
                       [ToCsv (path_join (DBT_DATA_DIR E) (OUTPUT_FILE_NAME E))
                          (output_table flights) False (str ''utf-8''),
                        ToCsv (path_join (OUTPUT_DIR E) (OUTPUT_FILE_NAME E))
                          (output_table flights) False (str ''utf-8'')]))"
      unfolding w write_flights_ToCsv by simp
  next
    assume "flights \<noteq> []"
    then show "fst (main E) =
        (if list_ex (too_nested E) flights then Inl RecursionError
         else case create_dir E (OUTPUT_DIR E) of
                Some e \<Rightarrow> Inl e
              | None \<Rightarrow>
                  (case to_csv E (path_join (DBT_DATA_DIR E) (OUTPUT_FILE_NAME E))
                          (output_table flights) of
                     Some e \<Rightarrow> Inl e
                   | None \<Rightarrow>
                       (case to_csv E (path_join (OUTPUT_DIR E) (OUTPUT_FILE_NAME E))
                               (output_table flights) of
                          Some e \<Rightarrow> Inl e
                        | None \<Rightarrow> Inr ())))"
      unfolding r write_flights_raises by simp
  qed
qed

theorem no_records_no_file_witness:
  "fst (get_airport_code_list env_maintenance (str ''ICAO'') (str ''Tunisia'')) = Inr [Str (str ''DTTA'')]
   \<and> fst (scrap_airports env_maintenance (tomorrow env_maintenance) valid_hours [Str (str ''DTTA'')] []) = Inr []
   \<and> fst (main env_maintenance) = Inr ()
   \<and> last (snd (main env_maintenance)) = Log WARNING NoFlightData
   \<and> filter is_ToCsv (snd (main env_maintenance)) = []
   \<and> fst (get_airport_code_list env_demo (str ''ICAO'') (str ''Tunisia''))
       = Inr [Str (str ''DTTA''), Str (str ''DTTJ'')]
   \<and> fst (scrap_airports env_demo (tomorrow env_demo) valid_hours [Str (str ''DTTA''), Str (str ''DTTJ'')] [])
       = Inr demo_flights
   \<and> demo_flights \<noteq> []
   \<and> fst (main env_demo) = Inr ()
   \<and> filter is_ToCsv (snd (main env_demo)) =
       [ToCsv (str ''/app/dbt/data/arrivals.csv'') (output_table demo_flights) False (str ''utf-8''),
        ToCsv (str ''/app/extract_load/output/arrivals.csv'') (output_table demo_flights) False (str ''utf-8'')]"
proof -
  obtain t1 where c: "get_airport_code_list env_maintenance (str ''ICAO'') (str ''Tunisia'')
      = (Inr [Str (str ''DTTA'')], t1)"
    using maintenance_codes
    by (cases "get_airport_code_list env_maintenance (str ''ICAO'') (str ''Tunisia'')") simp
  obtain t3 where s: "scrap_airports env_maintenance (tomorrow env_maintenance) valid_hours
      [Str (str ''DTTA'')] [] = (Inr [], t3)"
    using maintenance_collect
    by (cases "scrap_airports env_maintenance (tomorrow env_maintenance) valid_hours
          [Str (str ''DTTA'')] []") simp
  from no_records_no_file [OF c s]
  have e: "main env_maintenance =
      (Inr (),
       [Log INFO (ScrapingFor (fst (tomorrow env_maintenance)) (fst (snd (tomorrow env_maintenance)))
          (snd (snd (tomorrow env_maintenance))))]
       @ t1 @ [Log INFO (AirportCodes [Str (str ''DTTA'')])] @ t3 @ [Log WARNING NoFlightData])"
    and n: "filter is_ToCsv (snd (main env_maintenance)) = []"
    by blast+
  from e have l: "last (snd (main env_maintenance)) = Log WARNING NoFlightData"
    and f: "fst (main env_maintenance) = Inr ()"
    by simp_all
  obtain t3' where s': "scrap_airports env_demo (tomorrow env_demo) valid_hours
      [Str (str ''DTTA''), Str (str ''DTTJ'')] [] = (Inr demo_flights, t3')"
    using demo_collect
    by (cases "scrap_airports env_demo (tomorrow env_demo) valid_hours
          [Str (str ''DTTA''), Str (str ''DTTJ'')] []") simp
  note ne = demo_not_nested
  from no_records_no_file [OF demo_codes s'] ne
  have "filter is_ToCsv (snd (main env_demo)) =
      (case create_dir env_demo (OUTPUT_DIR env_demo) of
         Some e \<Rightarrow> []
       | None \<Rightarrow>
           (case to_csv env_demo (path_join (DBT_DATA_DIR env_demo) (OUTPUT_FILE_NAME env_demo))
                   (output_table demo_flights) of
              Some e \<Rightarrow>
                [ToCsv (path_join (DBT_DATA_DIR env_demo) (OUTPUT_FILE_NAME env_demo))
                   (output_table demo_flights) False (str ''utf-8'')]
            | None \<Rightarrow>
                [ToCsv (path_join (DBT_DATA_DIR env_demo) (OUTPUT_FILE_NAME env_demo))
                   (output_table demo_flights) False (str ''utf-8''),
                 ToCsv (path_join (OUTPUT_DIR env_demo) (OUTPUT_FILE_NAME env_demo))
                   (output_table demo_flights) False (str ''utf-8'')]))"
    and "fst (main env_demo) =
      (case create_dir env_demo (OUTPUT_DIR env_demo) of
         Some e \<Rightarrow> Inl e
       | None \<Rightarrow>
           (case to_csv env_demo (path_join (DBT_DATA_DIR env_demo) (OUTPUT_FILE_NAME env_demo))
                   (output_table demo_flights) of
              Some e \<Rightarrow> Inl e
            | None \<Rightarrow>
                (case to_csv env_demo (path_join (OUTPUT_DIR env_demo) (OUTPUT_FILE_NAME env_demo))
                        (output_table demo_flights) of
                   Some e \<Rightarrow> Inl e
                 | None \<Rightarrow> Inr ())))"
    by simp_all
  then have 2: "filter is_ToCsv (snd (main env_demo)) =
       [ToCsv (str ''/app/dbt/data/arrivals.csv'') (output_table demo_flights) False (str ''utf-8''),
        ToCsv (str ''/app/extract_load/output/arrivals.csv'') (output_table demo_flights) False (str ''utf-8'')]"
    and 3: "fst (main env_demo) = Inr ()"
    by (simp_all add: path_join_def env_demo_def env_timeout_def)
  from l f n 2 3 ne maintenance_codes maintenance_collect demo_codes demo_collect show ?thesis by simp
qed

text \<open>
  Claim C8, as stated, fails: \<open>scrap_flight_stats\<close> catches \<open>KeyError\<close> and no other
  exception of the flattening. In the run in which the page of the second window has a
  list where a flight entry should be, the assignment to that entry raises \<open>TypeError\<close>,
  and the run ends there: two of the eight windows were requested, and no table is
  written.
\<close>

theorem run_is_cross_product_counterexample:
  "fst (get_airport_code_list env_list_entry (str ''ICAO'') (str ''Tunisia''))
     = Inr [Str (str ''DTTA''), Str (str ''DTTJ'')]
   \<and> fst (main env_list_entry) = Inl TypeError
   \<and> filter is_HttpGet (snd (main env_list_entry))
       = [HttpGet (demo_url ''DTTA'' ''0''), HttpGet (demo_url ''DTTA'' ''6'')]
   \<and> filter is_ToCsv (snd (main env_list_entry)) = []"
proof -
  obtain t3 where s: "scrap_airports env_list_entry (tomorrow env_list_entry) valid_hours
      [Str (str ''DTTA''), Str (str ''DTTJ'')] [] = (Inl TypeError, t3)"
    using list_entry_collect
    by (cases "scrap_airports env_list_entry (tomorrow env_list_entry) valid_hours
          [Str (str ''DTTA''), Str (str ''DTTJ'')] []") simp
  have 1: "fst (main env_list_entry) = Inl TypeError"
    by (simp add: main_raises [OF list_entry_codes s])
  have 2: "filter is_HttpGet (snd (main env_list_entry))
       = [HttpGet (demo_url ''DTTA'' ''0''), HttpGet (demo_url ''DTTA'' ''6'')]"
    unfolding main_HttpGet [OF list_entry_codes] using list_entry_collect by blast
  have 3: "filter is_ToCsv (snd (main env_list_entry)) = []"
    by (simp only: main_ToCsv [OF list_entry_codes] s fst_conv sum.case)
  from list_entry_codes 1 2 3 show ?thesis by simp
qed

text \<open>
  Claim C8, amended. The run goes through the windows of the cross product of the
  resolved airport codes with the hours 0, 6, 12 and 18, in this order, one request for
  each, as far as the first window that raises an exception which \<open>scrap_flight_stats\<close>
  does not catch. When no window raises, the requests are those of all the windows, the
  records collected are the records of all the windows, the table made of them has as
  many rows as the windows have records together, every table handed to \<open>to_csv\<close> is this
  table, and it is handed to \<open>to_csv\<close> when there is a record and neither \<open>json_normalize\<close>
  nor \<open>create_dir\<close> raises. When a window raises, the run ends with its exception and
  writes nothing. In the example run, two airport codes give eight windows, five of them
  yield three records each, and the table has fifteen rows.
\<close>

theorem run_is_cross_product:
  assumes "get_airport_code_list E (str ''ICAO'') (str ''Tunisia'') = (Inr codes, t1)"
  shows "let ws = List.product codes [0, 6, 12, 18];
             returned = takeWhile (\<lambda>(c, h). window_raises E c h = None) ws;
             flights = concat (map (\<lambda>(c, h). window_records E c h) ws)
         in filter is_HttpGet (snd (main E))
              = map (\<lambda>(c, h). HttpGet (window_url E c h)) (take (Suc (length returned)) ws)
          \<and> (if returned = ws
              then filter is_HttpGet (snd (main E)) = map (\<lambda>(c, h). HttpGet (window_url E c h)) ws
                 \<and> fst (scrap_airports E (tomorrow E) valid_hours codes []) = Inr flights
                 \<and> length (rows (output_table flights))
                     = (\<Sum>(c, h)\<leftarrow>ws. length (window_records E c h))
                 \<and> (\<forall>p df ix enc. ToCsv p df ix enc \<in> set (snd (main E)) \<longrightarrow>
                       df = output_table flights)
                 \<and> (flights \<noteq> [] \<and> \<not> list_ex (too_nested E) flights
                      \<and> create_dir E (OUTPUT_DIR E) = None \<longrightarrow>
                    ToCsv (path_join (DBT_DATA_DIR E) (OUTPUT_FILE_NAME E)) (output_table flights)
                      False (str ''utf-8'') \<in> set (snd (main E)))
              else filter is_ToCsv (snd (main E)) = []
                 \<and> (\<exists>e. fst (main E) = Inl e
                      \<and> (case ws ! length returned of (c, h) \<Rightarrow> window_raises E c h) = Some e))"
proof -
  let ?ws = "List.product codes valid_hours"
  let ?P = "\<lambda>(c, h). window_raises E c h = None"
  let ?flights = "concat (map (\<lambda>(c, h). window_records E c h) ?ws)"
  obtain r t3 where s: "scrap_airports E (tomorrow E) valid_hours codes [] = (r, t3)"
    by (cases "scrap_airports E (tomorrow E) valid_hours codes []")
  then have c: "collect E ?ws [] = (r, t3)"
    by (simp add: scrap_airports_collect)
  note run = collect_run [OF c]
  from run s have g: "filter is_HttpGet (snd (main E))
      = map (\<lambda>(c, h). HttpGet (window_url E c h)) (take (Suc (length (takeWhile ?P ?ws))) ?ws)"
    by (simp add: main_HttpGet [OF assms])
  have all: "takeWhile ?P ?ws = ?ws \<longleftrightarrow> list_all ?P ?ws"
    by (simp add: takeWhile_eq_all_conv list_all_iff)
  have "if takeWhile ?P ?ws = ?ws
        then filter is_HttpGet (snd (main E)) = map (\<lambda>(c, h). HttpGet (window_url E c h)) ?ws
           \<and> fst (scrap_airports E (tomorrow E) valid_hours codes []) = Inr ?flights
           \<and> length (rows (output_table ?flights))
               = (\<Sum>(c, h)\<leftarrow>?ws. length (window_records E c h))
           \<and> (\<forall>p df ix enc. ToCsv p df ix enc \<in> set (snd (main E)) \<longrightarrow>
                 df = output_table ?flights)
           \<and> (?flights \<noteq> [] \<and> \<not> list_ex (too_nested E) ?flights
                \<and> create_dir E (OUTPUT_DIR E) = None \<longrightarrow>
              ToCsv (path_join (DBT_DATA_DIR E) (OUTPUT_FILE_NAME E)) (output_table ?flights)
                False (str ''utf-8'') \<in> set (snd (main E)))
        else filter is_ToCsv (snd (main E)) = []
           \<and> (\<exists>e. fst (main E) = Inl e
                \<and> (case ?ws ! length (takeWhile ?P ?ws) of (c, h) \<Rightarrow> window_raises E c h) = Some e)"
  proof (cases "takeWhile ?P ?ws = ?ws")
    case True
    with all run have r: "r = Inr ?flights"
      by simp
    from g True have 1: "filter is_HttpGet (snd (main E))
        = map (\<lambda>(c, h). HttpGet (window_url E c h)) ?ws"
      by simp
    from s r have 2: "fst (scrap_airports E (tomorrow E) valid_hours codes []) = Inr ?flights"
      by simp
    have 3: "length (rows (output_table ?flights))
        = (\<Sum>(c, h)\<leftarrow>?ws. length (window_records E c h))"
      by (simp add: rows_output_table length_concat_product)
    have 4: "df = output_table ?flights" if "ToCsv p df ix enc \<in> set (snd (main E))" for p df ix enc
      using main_tables [OF assms that] s r by auto
    have 5: "ToCsv (path_join (DBT_DATA_DIR E) (OUTPUT_FILE_NAME E)) (output_table ?flights)
        False (str ''utf-8'') \<in> set (snd (main E))"
      if "?flights \<noteq> []" "\<not> list_ex (too_nested E) ?flights" "create_dir E (OUTPUT_DIR E) = None"
    proof -
      from that have "ToCsv (path_join (DBT_DATA_DIR E) (OUTPUT_FILE_NAME E)) (output_table ?flights)
          False (str ''utf-8'') \<in> set (snd (write_flights E ?flights))"
        by (simp add: write_flights_cases split: option.splits)
      with s r show ?thesis
        by (simp add: main_unfold [OF assms])
    qed
    from True 1 2 3 4 5 show ?thesis by simp
  next
    case False
    with all run obtain e where e: "r = Inl e"
      and w: "(case ?ws ! length (takeWhile ?P ?ws) of (c, h) \<Rightarrow> window_raises E c h) = Some e"
      by auto
    from s e have "filter is_ToCsv (snd (main E)) = []"
      by (simp add: main_ToCsv [OF assms])
    moreover from s e have "fst (main E) = Inl e"
      by (simp add: main_raises [OF assms])
    ultimately have "filter is_ToCsv (snd (main E)) = []
        \<and> (\<exists>e. fst (main E) = Inl e
             \<and> (case ?ws ! length (takeWhile ?P ?ws) of (c, h) \<Rightarrow> window_raises E c h) = Some e)"
      using w by blast
    with False show ?thesis by (simp only: if_False)
  qed
  with g show ?thesis
    unfolding Let_def valid_hours_def by (rule conjI)
qed

theorem run_is_cross_product_witness:
  "fst (get_airport_code_list env_demo (str ''ICAO'') (str ''Tunisia''))
     = Inr [Str (str ''DTTA''), Str (str ''DTTJ'')]
   \<and> map (\<lambda>(c, h). window_raises env_demo c h)
       (List.product [Str (str ''DTTA''), Str (str ''DTTJ'')] [0, 6, 12, 18])
       = [None, None, None, None, None, None, None, None]
   \<and> filter is_HttpGet (snd (main env_demo)) =
       map HttpGet
         [demo_url ''DTTA'' ''0'', demo_url ''DTTA'' ''6'', demo_url ''DTTA'' ''12'', demo_url ''DTTA'' ''18'',
          demo_url ''DTTJ'' ''0'', demo_url ''DTTJ'' ''6'', demo_url ''DTTJ'' ''12'', demo_url ''DTTJ'' ''18'']
   \<and> map (\<lambda>(c, h). length (window_records env_demo c h))
         (List.product [Str (str ''DTTA''), Str (str ''DTTJ'')] [0, 6, 12, 18]) = [3, 3, 3, 3, 3, 0, 0, 0]
   \<and> concat (map (\<lambda>(c, h). window_records env_demo c h)
         (List.product [Str (str ''DTTA''), Str (str ''DTTJ'')] [0, 6, 12, 18])) = demo_flights
   \<and> filter is_ToCsv (snd (main env_demo)) =
       [ToCsv (str ''/app/dbt/data/arrivals.csv'') (output_table demo_flights) False (str ''utf-8''),
        ToCsv (str ''/app/extract_load/output/arrivals.csv'') (output_table demo_flights) False (str ''utf-8'')]
   \<and> length (rows (output_table demo_flights)) = 15"
proof -
  let ?ws = "List.product [Str (str ''DTTA''), Str (str ''DTTJ'')] [0, 6, 12, 18]"
  have w: "map (\<lambda>(c, h). length (window_records env_demo c h)) ?ws = [3, 3, 3, 3, 3, 0, 0, 0]"
    using demo_windows by (simp add: flights_dtta_def flights_dttj_def)
  have sum: "(\<Sum>(c, h)\<leftarrow>?ws. length (window_records env_demo c h)) = 15"
    using w by simp
  have f: "concat (map (\<lambda>(c, h). window_records env_demo c h) ?ws) = demo_flights"
    using demo_windows by (simp add: demo_flights_def)
  have u: "map (\<lambda>(c, h). HttpGet (window_url env_demo c h)) ?ws =
       map HttpGet
         [demo_url ''DTTA'' ''0'', demo_url ''DTTA'' ''6'', demo_url ''DTTA'' ''12'', demo_url ''DTTA'' ''18'',
          demo_url ''DTTJ'' ''0'', demo_url ''DTTJ'' ''6'', demo_url ''DTTJ'' ''12'', demo_url ''DTTJ'' ''18'']"
    using demo_urls by simp
  have t: "takeWhile (\<lambda>(c, h). window_raises env_demo c h = None) ?ws = ?ws"
    using demo_returns by (simp add: takeWhile_eq_all_conv)
  from run_is_cross_product [OF demo_codes]
  have "filter is_HttpGet (snd (main env_demo)) = map (\<lambda>(c, h). HttpGet (window_url env_demo c h)) ?ws
      \<and> length (rows (output_table (concat (map (\<lambda>(c, h). window_records env_demo c h) ?ws))))
          = (\<Sum>(c, h)\<leftarrow>?ws. length (window_records env_demo c h))"
    unfolding Let_def t by simp
  then have g: "filter is_HttpGet (snd (main env_demo)) =
       map HttpGet
         [demo_url ''DTTA'' ''0'', demo_url ''DTTA'' ''6'', demo_url ''DTTA'' ''12'', demo_url ''DTTA'' ''18'',
          demo_url ''DTTJ'' ''0'', demo_url ''DTTJ'' ''6'', demo_url ''DTTJ'' ''12'', demo_url ''DTTJ'' ''18'']"
    and n: "length (rows (output_table demo_flights)) = 15"
    unfolding u sum f by blast+
  from demo_codes have c: "fst (get_airport_code_list env_demo (str ''ICAO'') (str ''Tunisia''))
      = Inr [Str (str ''DTTA''), Str (str ''DTTJ'')]"
    by simp
  from c demo_returns g w f demo_writes n show ?thesis by blast
qed

text \<open>
  Claim C10. The rows of a table that the run hands to \<open>to_csv\<close> are the records of the
  windows, one row for each record and in the order of collection: the airports in the
  order in which the resolver returned their codes, for each airport the hours 0, 6, 12,
  18, for each window the flight entries in the order of the document. Nothing is
  reordered, merged or dropped: the rows are the image of that list.
\<close>

theorem rows_in_collection_order:
  assumes "get_airport_code_list E (str ''ICAO'') (str ''Tunisia'') = (Inr codes, t1)"
      and "flights = concat (map (\<lambda>c. concat (map (window_records E c) [0, 6, 12, 18])) codes)"
  shows "\<forall>p df ix enc. ToCsv p df ix enc \<in> set (snd (main E)) \<longrightarrow>
           rows df = map (\<lambda>f. map (map_of (normalise_json_ordered f))
                                 (columns (json_normalize flights))) flights"
proof (intro allI impI)
  fix p df ix enc
  assume "ToCsv p df ix enc \<in> set (snd (main E))"
  from main_tables [OF assms(1) this] obtain fl t3
    where s: "scrap_airports E (tomorrow E) valid_hours codes [] = (Inr fl, t3)"
      and df: "df = output_table fl"
    by blast
  from scrap_airports_ok [OF s] assms(2) have "fl = flights"
    by (simp add: valid_hours_def)
  with df show "rows df = map (\<lambda>f. map (map_of (normalise_json_ordered f))
      (columns (json_normalize flights))) flights"
    by (simp only: rows_output_table)
qed

theorem rows_in_collection_order_witness:
  "fst (get_airport_code_list env_demo (str ''ICAO'') (str ''Tunisia''))
     = Inr [Str (str ''DTTA''), Str (str ''DTTJ'')]
   \<and> fst (main env_demo) = Inr ()
   \<and> demo_flights =
       concat (map (\<lambda>c. concat (map (window_records env_demo c) [0, 6, 12, 18]))
         [Str (str ''DTTA''), Str (str ''DTTJ'')])
   \<and> columns (json_normalize demo_flights) =
       [str ''n'', str ''date'', str ''iata'', str ''icao'', str ''airport_name'']
   \<and> filter is_ToCsv (snd (main env_demo)) =
       [ToCsv (str ''/app/dbt/data/arrivals.csv'') (output_table demo_flights) False (str ''utf-8''),
        ToCsv (str ''/app/extract_load/output/arrivals.csv'') (output_table demo_flights) False (str ''utf-8'')]
   \<and> map (\<lambda>r. (r ! 0, r ! 3)) (rows (output_table demo_flights)) =
       map (\<lambda>n. (Some (JInt n), Some (JStr (str ''DTTA'')))) [1, 2, 3, 1, 2, 3, 1, 2, 3, 1, 2, 3]
       @ map (\<lambda>n. (Some (JInt n), Some (JStr (str ''DTTJ'')))) [4, 5, 6]"
proof -
  have f: "demo_flights =
       concat (map (\<lambda>c. concat (map (window_records env_demo c) [0, 6, 12, 18]))
         [Str (str ''DTTA''), Str (str ''DTTJ'')])"
    using demo_windows by (simp add: demo_flights_def)
  have c: "columns (json_normalize demo_flights) =
       [str ''n'', str ''date'', str ''iata'', str ''icao'', str ''airport_name'']"
    by (simp add: demo_flights_def flights_dtta_def flights_dttj_def flight_n_def table_simps)
  have r: "map (\<lambda>r. (r ! 0, r ! 3))
      (map (\<lambda>f. map (map_of (normalise_json_ordered f)) (columns (json_normalize demo_flights)))
         demo_flights) =
          map (\<lambda>n. (Some (JInt n), Some (JStr (str ''DTTA'')))) [1, 2, 3, 1, 2, 3, 1, 2, 3, 1, 2, 3]
          @ map (\<lambda>n. (Some (JInt n), Some (JStr (str ''DTTJ'')))) [4, 5, 6]"
    unfolding c
    by (simp add: demo_flights_def flights_dtta_def flights_dttj_def flight_n_def
        normalise_json_ordered_def is_dict_def)
  from rows_in_collection_order [OF demo_codes f] demo_written
  have "rows (output_table demo_flights) = map (\<lambda>f. map (map_of (normalise_json_ordered f))
        (columns (json_normalize demo_flights))) demo_flights"
    by blast
  then have m: "map (\<lambda>r. (r ! 0, r ! 3)) (rows (output_table demo_flights)) =
       map (\<lambda>n. (Some (JInt n), Some (JStr (str ''DTTA'')))) [1, 2, 3, 1, 2, 3, 1, 2, 3, 1, 2, 3]
       @ map (\<lambda>n. (Some (JInt n), Some (JStr (str ''DTTJ'')))) [4, 5, 6]"
    using r by (simp only:)
  from demo_codes have cs: "fst (get_airport_code_list env_demo (str ''ICAO'') (str ''Tunisia''))
      = Inr [Str (str ''DTTA''), Str (str ''DTTJ'')]"
    by simp
  from cs demo_main f c demo_writes m show ?thesis by blast
qed

end
